theory Spec2Isabelle
  imports Complex_Main
begin

section \<open>Data model\<close>

text \<open>
  The simulation works on single-precision arrays. Array elements are idealised as
  \<^typ>\<open>real\<close> numbers and arrays as lists in storage order; array extents and loop
  counters are natural numbers (extents of arrays that fit in memory are far below the
  range of the machine counters, so no counter wraps).
\<close>

text \<open>
  The algorithm selector of the metadata. The enumeration is declared in a header of the
  simulation library; the code under study tests it against \<open>Multislice\<close> only.
\<close>

datatype Algorithm = PRISM | Multislice | HRTEM

text \<open>
  The metadata record (\<open>Metadata\<close>): the fields the worker threads and the output setup
  read or write. Every other field lives in the record's extension part, so equality
  of two metadata values compares them as well.
\<close>

record Metadata =
  algorithm :: Algorithm
  filenameOutput :: string
  numFP :: nat
  fpNum :: nat
  randomSeed :: nat
  saveDPC_CoM :: bool
  save4DOutput :: bool
  savePotentialSlices :: bool
  crop4DOutput :: bool
  crop4Damax :: real

text \<open>
  The parameter block (\<open>Parameters\<close>) threaded through the stage kernels: the metadata,
  the sampled axes, the stage artifacts, and the bookkeeping fields the threads set.
  Of the initial probe \<open>psiProbeInit\<close> only its two extents are read here; the field
  \<open>output\<close> is named \<open>output_arr\<close>.
\<close>

record Parameters =
  meta :: Metadata
  lambda :: real
  qx :: "real list"
  qy :: "real list"
  xp :: "real list"
  yp :: "real list"
  psiProbeInit_dimi :: nat
  psiProbeInit_dimj :: nat
  pot :: "real list"
  Scompact :: "complex list"
  output_arr :: "real list"
  DPC_CoM :: "real list"
  fpFlag :: nat
  scale :: real
  outputFile :: "(string \<times> bool) option"

section \<open>Declaring the 4-D datacube (\<open>setup4DOutput\<close>)\<close>

text \<open>
  The cropping scan: \<open>for (i = 0; i < q.get_dimi(); i++) if (q.at(i) < qMax) ind++; else break;\<close>
  with \<open>i\<close> the loop counter and \<open>ind\<close> the running count.
\<close>

function crop_scan :: "real list \<Rightarrow> real \<Rightarrow> nat \<Rightarrow> nat \<Rightarrow> nat" where
  "crop_scan q qMax i ind =
     (if i < length q
      then (if q ! i < qMax then crop_scan q qMax (Suc i) (Suc ind) else ind)
      else ind)"
  by pat_completeness auto
termination
  by (relation "measure (\<lambda>(q, qMax, i, ind). length q - i)") auto

declare crop_scan.simps [simp del]

text \<open>
  What \<open>setup4DOutput\<close> computes before it creates the datasets: the two frequency
  extents \<open>qxInd_max\<close>, \<open>qyInd_max\<close> and the two offsets into the frequency axes.
\<close>

record Extents4D =
  qxInd_max :: nat
  qyInd_max :: nat
  offset_qx :: nat
  offset_qy :: nat

definition setup4DOutput_extents :: "Parameters \<Rightarrow> Extents4D" where
  "setup4DOutput_extents ps =
     (if crop4DOutput (meta ps)
      then (let qMax = crop4Damax (meta ps) / lambda ps;
                qxInd = crop_scan (qx ps) qMax 0 0;
                qyInd = crop_scan (qy ps) qMax 0 0
            in \<lparr>qxInd_max = qxInd * 2, qyInd_max = qyInd * 2, offset_qx = 0, offset_qy = 0\<rparr>)
      else if algorithm (meta ps) = Multislice
      then \<lparr>qxInd_max = psiProbeInit_dimi ps div 2,
            qyInd_max = psiProbeInit_dimj ps div 2,
            offset_qx = psiProbeInit_dimi ps div 4,
            offset_qy = psiProbeInit_dimj ps div 4\<rparr>
      else \<lparr>qxInd_max = length (qx ps), qyInd_max = length (qy ps),
            offset_qx = 0, offset_qy = 0\<rparr>)"

text \<open>The extents of the declared dataset: scan-x, scan-y, freq-x, freq-y.\<close>

definition setup4DOutput_data_dims :: "Parameters \<Rightarrow> nat list" where
  "setup4DOutput_data_dims ps =
     [length (xp ps), length (yp ps),
      qxInd_max (setup4DOutput_extents ps), qyInd_max (setup4DOutput_extents ps)]"

text \<open>Concrete parameter blocks used to instantiate the theorems below.\<close>

definition meta0 :: Metadata where
  "meta0 = \<lparr>algorithm = PRISM, filenameOutput = ''out.h5'', numFP = 1, fpNum = 0,
            randomSeed = 7, saveDPC_CoM = False, save4DOutput = True,
            savePotentialSlices = False, crop4DOutput = False, crop4Damax = 5\<rparr>"

definition pars0 :: Parameters where
  "pars0 = \<lparr>meta = meta0, lambda = 2, qx = [0, 1, 2, 3, 4, 5, 6, 7], qy = [0, 2, 4, 6],
            xp = [0, 1], yp = [0, 1, 2],
            psiProbeInit_dimi = 8, psiProbeInit_dimj = 4,
            pot = [], Scompact = [], output_arr = [], DPC_CoM = [],
            fpFlag = 0, scale = 1, outputFile = None\<rparr>"

definition pars_crop :: Parameters where
  "pars_crop = pars0\<lparr>meta := meta0\<lparr>crop4DOutput := True\<rparr>\<rparr>"

definition pars_ms :: Parameters where
  "pars_ms = pars0\<lparr>meta := meta0\<lparr>algorithm := Multislice\<rparr>\<rparr>"

section \<open>The main window, the collaborators and the world a worker thread runs in\<close>

datatype Stage = Potential | SMatrix | Output

datatype Lock = calculationLock | dataLock | outputLock | write4D_lock

text \<open>
  What a thread does to its surroundings is recorded in order: console messages,
  signals to the user interface and the progress bar, lock operations, stage-kernel
  invocations (with the metadata of the parameter block the kernel is given), and the
  thread's own file operations.
\<close>

datatype Event =
    Message string
  | Signal string
  | Acquire Lock
  | Release Lock
  | KernelRun Stage Metadata
  | Configure Metadata
  | FileCreate string
  | FileOpen string
  | FileClose
  | FileRemove string
  | Sleep nat
  | Save string

text \<open>The state of one path of the file system; an existing file has its bytes.\<close>

datatype FileStatus = Inaccessible | Absent | Existing "nat list"

text \<open>
  The main window (\<open>PRISMMainWindow\<close>) as the threads see it: the metadata edited by the
  user, the cached parameter block \<open>pars\<close>, the readiness flags, the display copies of the
  potential and the output, and the answer to the overwrite request.
\<close>

record MainWindow =
  window_meta :: Metadata
  pars :: Parameters
  potential :: "real list"
  outputArray :: "real list"
  potentialReady :: bool
  ScompactReady :: bool
  outputReady :: bool
  probeSetupReady :: bool
  overwriteCheck :: bool

text \<open>Modelled from the spec: the window's accessor \<open>getMetadata\<close>, which returns the
  metadata currently stored in the window.\<close>

definition getMetadata :: "MainWindow \<Rightarrow> Metadata" where
  "getMetadata mw = window_meta mw"

text \<open>Modelled from the spec: the window's accessors \<open>potentialIsReady\<close> and
  \<open>SMatrixIsReady\<close>, which return the readiness flag of a stage.\<close>

definition potentialIsReady :: "MainWindow \<Rightarrow> bool" where
  "potentialIsReady mw = potentialReady mw"


text \<open>Modelled from the spec: the window's \<open>resetCalculation\<close>, which invalidates the
  readiness flag of the potential stage and of every downstream stage.\<close>

definition resetCalculation :: "MainWindow \<Rightarrow> MainWindow" where
  "resetCalculation mw =
     mw\<lparr>potentialReady := False, ScompactReady := False,
        outputReady := False, probeSetupReady := False\<rparr>"

text \<open>Modelled from the spec: the window's \<open>potentialReceived\<close> and \<open>outputReceived\<close>, which
  take the artifact ("artifact ready" notification) and set the stage's readiness flag.\<close>

definition potentialReceived :: "real list \<Rightarrow> MainWindow \<Rightarrow> MainWindow" where
  "potentialReceived p mw = mw\<lparr>potential := p, potentialReady := True\<rparr>"

definition outputReceived :: "real list \<Rightarrow> MainWindow \<Rightarrow> MainWindow" where
  "outputReceived v mw = mw\<lparr>outputArray := v, outputReady := True\<rparr>"

text \<open>Modelled from the spec: the window's \<open>overwriteFile\<close>, the caller's answer to the
  overwrite-confirmation request, and \<open>flipOverwrite\<close>, which flips that flag back.\<close>

definition overwriteFile :: "MainWindow \<Rightarrow> bool" where
  "overwriteFile mw = overwriteCheck mw"

definition flipOverwrite :: "MainWindow \<Rightarrow> MainWindow" where
  "flipOverwrite mw = mw\<lparr>overwriteCheck := \<not> overwriteCheck mw\<rparr>"

text \<open>
  The world of a run: the window, the file system, the sequence of values the C library's
  \<open>rand()\<close> returns with the number of calls made so far, and the record of events.
\<close>

record World =
  window :: MainWindow
  files :: "string \<Rightarrow> FileStatus"
  rand_seq :: "nat \<Rightarrow> nat"
  rand_calls :: nat
  trace :: "Event list"

text \<open>
  The opaque collaborators: the constructor of a parameter block from a metadata value
  and the stage kernels, each of which updates the parameter block it is given.
\<close>

record Collaborators =
  new_Parameters :: "Metadata \<Rightarrow> Parameters"
  PRISM01_calcPotential :: "Parameters \<Rightarrow> Parameters"
  PRISM02_calcSMatrix :: "Parameters \<Rightarrow> Parameters"
  PRISM03_calcOutput :: "Parameters \<Rightarrow> Parameters"
  Multislice_calcOutput :: "Parameters \<Rightarrow> Parameters"

text \<open>
  A running thread: its own copy of the metadata (\<open>this->meta\<close>), the parameter block
  \<open>params\<close> local to \<open>run()\<close>, and the world.
\<close>

record RunState =
  this_meta :: Metadata
  params :: Parameters
  world :: World

definition emit :: "Event \<Rightarrow> World \<Rightarrow> World" where
  "emit e w = w\<lparr>trace := trace w @ [e]\<rparr>"

definition in_world :: "(World \<Rightarrow> World) \<Rightarrow> RunState \<Rightarrow> RunState" where
  "in_world f st = st\<lparr>world := f (world st)\<rparr>"

definition in_window :: "(MainWindow \<Rightarrow> MainWindow) \<Rightarrow> RunState \<Rightarrow> RunState" where
  "in_window f st = st\<lparr>world := (world st)\<lparr>window := f (window (world st))\<rparr>\<rparr>"

text \<open>\<open>Parameters<...> params(meta, progressbar)\<close>: the block's metadata is the given one.\<close>

definition Parameters_ctor :: "Collaborators \<Rightarrow> Metadata \<Rightarrow> Parameters" where
  "Parameters_ctor K m = (new_Parameters K m)\<lparr>meta := m\<rparr>"

text \<open>The thread's constructor copies the window's metadata under the data lock.\<close>

definition PRISMThread_ctor :: "World \<Rightarrow> Metadata \<times> World" where
  "PRISMThread_ctor w =
     (getMetadata (window w), emit (Release dataLock) (emit (Acquire dataLock) w))"

text \<open>The first lines of both \<open>run()\<close> functions: the local parameter block.\<close>

definition start_run :: "Collaborators \<Rightarrow> Metadata \<Rightarrow> World \<Rightarrow> RunState" where
  "start_run K m w = \<lparr>this_meta = m, params = Parameters_ctor K m, world = w\<rparr>"

text \<open>A stage kernel is invoked on the local parameter block.\<close>

definition invoke_kernel :: "Stage \<Rightarrow> (Parameters \<Rightarrow> Parameters) \<Rightarrow> RunState \<Rightarrow> RunState" where
  "invoke_kernel s f st =
     st\<lparr>params := f (params st),
        world := emit (KernelRun s (meta (params st))) (world st)\<rparr>"

definition is_kernel_run :: "Stage \<Rightarrow> Event \<Rightarrow> bool" where
  "is_kernel_run s e = (case e of KernelRun s' m \<Rightarrow> s' = s | _ \<Rightarrow> False)"

definition kernel_runs :: "Stage \<Rightarrow> Event list \<Rightarrow> nat" where
  "kernel_runs s tr = length (filter (is_kernel_run s) tr)"

definition kernel_metas :: "Stage \<Rightarrow> Event list \<Rightarrow> Metadata list" where
  "kernel_metas s tr =
     concat (map (\<lambda>e. case e of KernelRun s' m \<Rightarrow> (if s' = s then [m] else []) | _ \<Rightarrow> []) tr)"

definition is_lock_event :: "Event \<Rightarrow> bool" where
  "is_lock_event e = (case e of Acquire l \<Rightarrow> True | Release l \<Rightarrow> True | _ \<Rightarrow> False)"

text \<open>\<open>rand()\<close> returns the next value of the sequence.\<close>

definition rand :: "World \<Rightarrow> nat \<times> World" where
  "rand w = (rand_seq w (rand_calls w), w\<lparr>rand_calls := Suc (rand_calls w)\<rparr>)"

section \<open>The output-path pre-flight check\<close>

text \<open>Modelled from the spec: \<open>testFilenameOutput\<close>, which tells the three states of the
  target apart: 0 for an inaccessible target, 1 for a usable target that does not exist,
  2 for a target that exists.\<close>

definition testFilenameOutput :: "(string \<Rightarrow> FileStatus) \<Rightarrow> string \<Rightarrow> nat" where
  "testFilenameOutput fs path =
     (case fs path of Inaccessible \<Rightarrow> 0 | Absent \<Rightarrow> 1 | Existing bytes \<Rightarrow> 2)"

definition remove_file :: "string \<Rightarrow> World \<Rightarrow> World" where
  "remove_file path w =
     emit (FileRemove path)
       (w\<lparr>files := (files w)(path := (case files w path of Existing bytes \<Rightarrow> Absent | s \<Rightarrow> s))\<rparr>)"

text \<open>
  The two tests at the head of \<open>FullPRISMCalcThread::run\<close> and
  \<open>FullMultisliceCalcThread::run\<close>. \<open>Inl\<close> is the \<open>return\<close> out of \<open>run()\<close>; \<open>Inr\<close> falls
  through to the rest of the function.
\<close>

definition preflight :: "RunState \<Rightarrow> RunState + RunState" where
  "preflight st =
     (let path = filenameOutput (meta (params st)) in
      if testFilenameOutput (files (world st)) path = 0
      then Inl (in_world
                 (emit (Message ''Aborting calculation, please choose an accessible output directory''))
                 st)
      else if testFilenameOutput (files (world st)) path = 2
      then (let st1 = in_world (emit (Signal ''overwriteWarning'')) st in
            if overwriteFile (window (world st1))
            then Inr (in_window flipOverwrite
                       (in_world (emit (Sleep 1)) (in_world (remove_file path) st1)))
            else Inl st1)
      else Inr st)"

section \<open>The stages of a full calculation\<close>

text \<open>
  The potential stage of both full-calculation threads: the test of the readiness flag
  and of the metadata, the recomputation or the reuse of the cached block, and the
  notification of the window that follows the two branches.
\<close>

definition store_pars :: "RunState \<Rightarrow> RunState" where
  "store_pars st =
     in_world (emit (Release dataLock))
       (in_window (\<lambda>mw. mw\<lparr>pars := params st\<rparr>)
          (in_world (emit (Acquire dataLock)) st))"

definition load_pars :: "RunState \<Rightarrow> RunState" where
  "load_pars st =
     in_world (emit (Release dataLock))
       (in_world (emit (Message ''Potential already calculated. Using existing result.''))
          ((in_world (emit (Acquire dataLock)) st)\<lparr>params := pars (window (world st))\<rparr>))"

definition notify_potential :: "RunState \<Rightarrow> RunState" where
  "notify_potential st =
     in_world (emit (Signal ''potentialCalculated''))
       (in_window (potentialReceived (pot (params st))) st)"

definition potential_stage :: "Collaborators \<Rightarrow> RunState \<Rightarrow> RunState" where
  "potential_stage K st =
     notify_potential
       (if \<not> potentialIsReady (window (world st))
           \<or> \<not> (meta (params st) = getMetadata (window (world st)))
        then store_pars
               (in_world (emit (Message ''Potential Calculated''))
                  (invoke_kernel Potential (PRISM01_calcPotential K)
                     (in_window resetCalculation st)))
        else load_pars st)"






text \<open>
  The output stages that follow the potential: compact operator and output for PRISM,
  the single output kernel (with \<open>params.scale = 1.0\<close>) for Multislice.
\<close>

datatype CalcThread = FullPRISMCalc | FullMultisliceCalc

definition output_stages :: "Collaborators \<Rightarrow> CalcThread \<Rightarrow> RunState \<Rightarrow> RunState" where
  "output_stages K thr st =
     (case thr of
        FullPRISMCalc \<Rightarrow>
          invoke_kernel Output (PRISM03_calcOutput K)
            (invoke_kernel SMatrix (PRISM02_calcSMatrix K) st)
      | FullMultisliceCalc \<Rightarrow>
          invoke_kernel Output (Multislice_calcOutput K)
            (st\<lparr>params := (params st)\<lparr>scale := 1\<rparr>\<rparr>))"

definition close_file :: "RunState \<Rightarrow> RunState" where
  "close_file st = in_world (emit FileClose) (st\<lparr>params := (params st)\<lparr>outputFile := None\<rparr>\<rparr>)"

section \<open>Frozen-phonon passes\<close>

text \<open>Modelled from the spec: the array operator \<open>+=\<close>, which adds elementwise.\<close>

definition add_arrays :: "real list \<Rightarrow> real list \<Rightarrow> real list" where
  "add_arrays acc v = map2 (+) acc v"

text \<open>
  The accumulators of the loop: the thread state with the running sums \<open>net_output\<close>
  and \<open>DPC_CoM_output\<close>.
\<close>

record FPState =
  run :: RunState
  net_output :: "real list"
  DPC_CoM_output :: "real list"

text \<open>
  The parameter block of one further pass and the pipeline run on it. In the loop body
  the name \<open>params\<close> is redeclared: \<open>Parameters<...> params(meta, progressbar)\<close> builds the
  block of the pass from the thread's \<open>meta\<close>; the output file is opened for update and
  \<open>fpFlag\<close> is set to the pass number (the Multislice thread also sets \<open>scale\<close> here).
\<close>

definition pass_params :: "Collaborators \<Rightarrow> CalcThread \<Rightarrow> Metadata \<Rightarrow> nat \<Rightarrow> Parameters" where
  "pass_params K thr m fp_num =
     (let p = (Parameters_ctor K m)\<lparr>outputFile := Some (filenameOutput m, True), fpFlag := fp_num\<rparr>
      in case thr of FullPRISMCalc \<Rightarrow> p | FullMultisliceCalc \<Rightarrow> p\<lparr>scale := 1\<rparr>)"

definition run_pass :: "Collaborators \<Rightarrow> CalcThread \<Rightarrow> RunState \<Rightarrow> RunState" where
  "run_pass K thr st =
     (let st1 = notify_potential (invoke_kernel Potential (PRISM01_calcPotential K) st)
      in case thr of
           FullPRISMCalc \<Rightarrow>
             invoke_kernel Output (PRISM03_calcOutput K)
               (invoke_kernel SMatrix (PRISM02_calcSMatrix K) st1)
         | FullMultisliceCalc \<Rightarrow>
             invoke_kernel Output (Multislice_calcOutput K) st1)"

text \<open>
  One iteration of \<open>for (auto fp_num = 1; fp_num < params.meta.numFP; ++fp_num)\<close>. The
  first statement, \<open>params.meta.randomSeed = rand() % 100000\<close>, stands before the
  redeclaration and so assigns to the \<open>params\<close> of the enclosing scope; \<open>++meta.fpNum\<close>
  updates the thread's metadata. The block of the pass lives until the end of the
  iteration; the enclosing \<open>params\<close> is then in scope again.
\<close>

definition fp_body :: "Collaborators \<Rightarrow> CalcThread \<Rightarrow> nat \<Rightarrow> FPState \<Rightarrow> FPState" where
  "fp_body K thr fp_num s =
     (let st = run s;
          (r, w1) = rand (world st);
          outer = (params st)\<lparr>meta := (meta (params st))\<lparr>randomSeed := r mod 100000\<rparr>\<rparr>;
          m = (this_meta st)\<lparr>fpNum := Suc (fpNum (this_meta st))\<rparr>;
          w2 = emit (Signal ''resetOutputs'') (emit (Signal ''Frozen Phonon'') w1);
          w3 = emit (FileOpen (filenameOutput m)) w2;
          inner = run_pass K thr \<lparr>this_meta = m, params = pass_params K thr m fp_num, world = w3\<rparr>;
          net = add_arrays (net_output s) (output_arr (params inner));
          dpc = (if saveDPC_CoM m then add_arrays (DPC_CoM_output s) (DPC_CoM (params inner))
                 else DPC_CoM_output s)
      in \<lparr>run = \<lparr>this_meta = m, params = outer, world = emit FileClose (world inner)\<rparr>,
          net_output = net, DPC_CoM_output = dpc\<rparr>)"

function fp_loop :: "Collaborators \<Rightarrow> CalcThread \<Rightarrow> nat \<Rightarrow> FPState \<Rightarrow> FPState" where
  "fp_loop K thr fp_num s =
     (if fp_num < numFP (meta (params (run s)))
      then fp_loop K thr (Suc fp_num) (fp_body K thr fp_num s)
      else s)"
  by pat_completeness auto
termination
  by (relation "measure (\<lambda>(K, thr, fp_num, s). numFP (meta (params (run s))) - fp_num)")
     (auto simp: fp_body_def Let_def split: prod.splits)

declare fp_loop.simps [simp del]

text \<open>
  The block \<open>if (params.meta.numFP > 1) { ... }\<close>: the sums start from the first pass,
  the loop adds the further passes, and the sums are divided by the pass count.
\<close>

definition frozen_phonons :: "Collaborators \<Rightarrow> CalcThread \<Rightarrow> RunState \<Rightarrow> RunState" where
  "frozen_phonons K thr st =
     (if numFP (meta (params st)) > 1
      then (let s0 = \<lparr>run = st, net_output = output_arr (params st),
                      DPC_CoM_output = (if saveDPC_CoM (meta (params st))
                                        then DPC_CoM (params st) else [])\<rparr>;
                s = fp_loop K thr 1 s0;
                p = params (run s);
                n = real (numFP (meta p));
                p1 = p\<lparr>output_arr := map (\<lambda>x. x / n) (net_output s)\<rparr>;
                p2 = (if saveDPC_CoM (meta p)
                      then p1\<lparr>DPC_CoM := map (\<lambda>x. x / n) (DPC_CoM_output s)\<rparr> else p1)
            in (run s)\<lparr>params := p2\<rparr>)
      else st)"

section \<open>The full calculation threads\<close>

text \<open>
  The part of \<open>run()\<close> after the pre-flight check, for either thread: the calculation
  lock, the creation of the output file, the stages of the first pass, the further
  passes, the copies into the window, and the saving of the result.
\<close>

definition create_output_file :: "RunState \<Rightarrow> RunState" where
  "create_output_file st =
     (let path = filenameOutput (meta (params st)) in
      (in_world (\<lambda>w. emit (FileCreate path) (w\<lparr>files := (files w)(path := Existing [])\<rparr>)) st)
        \<lparr>params := (params st)\<lparr>outputFile := Some (path, False), fpFlag := 0\<rparr>\<rparr>)"

definition finish_run :: "RunState \<Rightarrow> RunState" where
  "finish_run st =
     (let st1 = store_pars st;
          st2 = in_world (emit (Release outputLock)) (in_world (emit (Acquire outputLock)) st1);
          st3 = in_world (emit (Save ''writeMetadata'')) (in_world (emit (Save ''saveSTEM'')) st2);
          st4 = in_window (outputReceived (output_arr (params st3))) st3;
          st5 = in_world (emit (Signal ''outputCalculated'')) st4
      in in_world (emit (Release calculationLock)) st5)"

definition run_body :: "Collaborators \<Rightarrow> CalcThread \<Rightarrow> RunState \<Rightarrow> RunState" where
  "run_body K thr st =
     (let st1 = in_world (emit (Acquire calculationLock))
                  (in_world (emit (Signal ''Initiating simulation'')) st);
          st2 = create_output_file (in_world (emit (Configure (this_meta st1))) st1);
          st3 = close_file (output_stages K thr (potential_stage K st2))
      in finish_run (frozen_phonons K thr st3))"

definition full_run :: "Collaborators \<Rightarrow> CalcThread \<Rightarrow> Metadata \<Rightarrow> World \<Rightarrow> World" where
  "full_run K thr m w =
     (case preflight (start_run K m w) of
        Inl st \<Rightarrow> world st
      | Inr st \<Rightarrow> world (run_body K thr st))"

definition FullPRISMCalcThread_run :: "Collaborators \<Rightarrow> Metadata \<Rightarrow> World \<Rightarrow> World" where
  "FullPRISMCalcThread_run K m w = full_run K FullPRISMCalc m w"


section \<open>The outputs of the passes and their mean\<close>

text \<open>
  What the kernels of one further pass make of the block they start from, and the output
  of pass \<open>i\<close> of a thread whose metadata was \<open>m\<close> when the loop began: the thread's
  \<open>fpNum\<close> has been incremented \<open>i\<close> times by then.
\<close>

definition pipeline :: "Collaborators \<Rightarrow> CalcThread \<Rightarrow> Parameters \<Rightarrow> Parameters" where
  "pipeline K thr p =
     (case thr of
        FullPRISMCalc \<Rightarrow> PRISM03_calcOutput K (PRISM02_calcSMatrix K (PRISM01_calcPotential K p))
      | FullMultisliceCalc \<Rightarrow> Multislice_calcOutput K (PRISM01_calcPotential K p))"

definition pass_meta :: "Metadata \<Rightarrow> nat \<Rightarrow> Metadata" where
  "pass_meta m i = m\<lparr>fpNum := fpNum m + i\<rparr>"

definition pass_output :: "Collaborators \<Rightarrow> CalcThread \<Rightarrow> Metadata \<Rightarrow> nat \<Rightarrow> real list" where
  "pass_output K thr m i = output_arr (pipeline K thr (pass_params K thr (pass_meta m i) i))"

text \<open>
  The elementwise arithmetic mean of tensors of one shape, in the words of the
  specification: element \<open>k\<close> is the sum of the tensors' elements \<open>k\<close> divided by their number.
\<close>

definition elementwise_mean :: "real list list \<Rightarrow> real list" where
  "elementwise_mean vs =
     map (\<lambda>k. (\<Sum>v\<leftarrow>vs. v ! k) / real (length vs)) [0..<length (hd vs)]"

text \<open>Concrete collaborators, a concrete window and a concrete world.\<close>

definition K0 :: Collaborators where
  "K0 = \<lparr>new_Parameters = (\<lambda>m. pars0),
         PRISM01_calcPotential = (\<lambda>p. p\<lparr>pot := [real (randomSeed (meta p)), real (fpNum (meta p))]\<rparr>),
         PRISM02_calcSMatrix = (\<lambda>p. p\<lparr>Scompact := [1]\<rparr>),
         PRISM03_calcOutput = (\<lambda>p. p\<lparr>output_arr := [real (fpNum (meta p)), 3]\<rparr>),
         Multislice_calcOutput = (\<lambda>p. p\<lparr>output_arr := [real (fpNum (meta p)), 5]\<rparr>)\<rparr>"

definition window0 :: MainWindow where
  "window0 = \<lparr>window_meta = meta0, pars = pars0, potential = [], outputArray = [],
              potentialReady = True, ScompactReady = True, outputReady = True,
              probeSetupReady = False, overwriteCheck = False\<rparr>"

definition world0 :: World where
  "world0 = \<lparr>window = window0, files = (\<lambda>path. Absent),
             rand_seq = (\<lambda>n. 123456 + n), rand_calls = 0, trace = []\<rparr>"

definition world_cold :: World where
  "world_cold = world0\<lparr>window := window0\<lparr>potentialReady := False\<rparr>\<rparr>"

definition world_existing :: World where
  "world_existing = world0\<lparr>files := (\<lambda>path. if path = ''out.h5'' then Existing [80, 75] else Absent)\<rparr>"

definition world_accept :: World where
  "world_accept = world_existing\<lparr>window := window0\<lparr>overwriteCheck := True\<rparr>\<rparr>"

definition world_inaccessible :: World where
  "world_inaccessible = world0\<lparr>files := (\<lambda>path. Inaccessible)\<rparr>"




definition meta_fp :: Metadata where
  "meta_fp = meta0\<lparr>numFP := 3\<rparr>"

definition st_fp :: RunState where
  "st_fp = \<lparr>this_meta = meta_fp, params = pars0\<lparr>meta := meta_fp, output_arr := [6, 3]\<rparr>,
            world = world0\<rparr>"

section \<open>The incremental accumulating 4-D write (\<open>writeDatacube4D\<close>)\<close>

text \<open>
  A 4-D dataset on disk: its extents and its content by index tuple. The output file, as
  far as this function is concerned, is the table of the \<open>datacube\<close> datasets by group
  name, together with the record of what was done to the file and to the write lock.
\<close>

type_synonym idx4 = "nat \<times> nat \<times> nat \<times> nat"

record Datacube =
  cube_dims :: idx4
  cube_data :: "idx4 \<Rightarrow> real"

datatype StoreEvent =
    LockStore
  | UnlockStore
  | ReadSlab string
  | WriteSlab string
  | Flush string

record Store =
  datacubes :: "string \<Rightarrow> Datacube option"
  store_log :: "StoreEvent list"

datatype io_error = NoSuchObject | OutOfBounds | SelectionOutOfExtent | UninitialisedRead

fun total4 :: "idx4 \<Rightarrow> nat" where
  "total4 (d0, d1, d2, d3) = d0 * d1 * d2 * d3"

text \<open>
  The hyperslab selected by \<open>fspace.selectHyperslab(H5S_SELECT_SET, mdims, offset)\<close>:
  \<open>mdims\<close> elements along each axis, starting at \<open>offset\<close>. A transfer visits the selected
  elements in row-major order; \<open>slab_index\<close> is the position of the \<open>n\<close>-th of them.
\<close>

fun slab_index :: "idx4 \<Rightarrow> idx4 \<Rightarrow> nat \<Rightarrow> idx4" where
  "slab_index (o0, o1, o2, o3) (d0, d1, d2, d3) n =
     (o0 + n div (d1 * d2 * d3),
      o1 + (n div (d2 * d3)) mod d1,
      o2 + (n div d3) mod d2,
      o3 + n mod d3)"

definition hyperslab :: "idx4 \<Rightarrow> idx4 \<Rightarrow> idx4 list" where
  "hyperslab offset mdims = map (slab_index offset mdims) [0..<total4 mdims]"

fun in_extent :: "idx4 \<Rightarrow> idx4 \<Rightarrow> idx4 \<Rightarrow> bool" where
  "in_extent (e0, e1, e2, e3) (o0, o1, o2, o3) (d0, d1, d2, d3) =
     (o0 + d0 \<le> e0 \<and> o1 + d1 \<le> e1 \<and> o2 + d2 \<le> e2 \<and> o3 + d3 \<le> e3)"

definition read_slab :: "Datacube \<Rightarrow> idx4 list \<Rightarrow> real list" where
  "read_slab cube sel = map (cube_data cube) sel"

fun store_cells :: "('i \<times> 'v) list \<Rightarrow> ('i \<Rightarrow> 'v) \<Rightarrow> ('i \<Rightarrow> 'v)" where
  "store_cells [] f = f"
| "store_cells ((c, v) # cvs) f = store_cells cvs (f(c := v))"

definition write_slab :: "Datacube \<Rightarrow> idx4 list \<Rightarrow> real list \<Rightarrow> Datacube" where
  "write_slab cube sel vals = cube\<lparr>cube_data := store_cells (zip sel vals) (cube_data cube)\<rparr>"

text \<open>
  The re-striding loops. \<open>finalBuffer\<close> comes from \<open>malloc\<close>: a cell holds \<open>None\<close> until it
  is assigned.
  \<^verbatim>\<open>for (i = 0; i < mdims[2]; i++) for (j = 0; j < mdims[3]; j++)
      finalBuffer[i * mdims[3] + j] = buffer[j * mdims[2] + i];\<close>
\<close>

definition restride :: "nat \<Rightarrow> nat \<Rightarrow> real list \<Rightarrow> real option list \<Rightarrow> real option list" where
  "restride d2 d3 buffer finalBuffer =
     fold (\<lambda>i fb. fold (\<lambda>j fb. fb[i * d3 + j := Some (buffer ! (j * d2 + i))]) [0..<d3] fb)
          [0..<d2] finalBuffer"

text \<open>
  The largest index the loops touch, in either buffer, is \<open>d2 * d3 - 1\<close>; they stay inside
  buffers of \<open>n\<close> elements exactly when they do not run at all or \<open>d2 * d3 \<le> n\<close>.
\<close>

definition restride_in_bounds :: "nat \<Rightarrow> nat \<Rightarrow> nat \<Rightarrow> bool" where
  "restride_in_bounds d2 d3 n = (d2 * d3 = 0 \<or> d2 * d3 \<le> n)"

text \<open>
  \<open>for (i = 0; i < n; i++) finalBuffer[i] += readBuffer[i];\<close> reads every cell of
  \<open>finalBuffer\<close>; reading a cell that was never assigned has no defined result.
\<close>

fun add_cells :: "real option list \<Rightarrow> real list \<Rightarrow> io_error + real list" where
  "add_cells [] rb = Inr []"
| "add_cells (None # fb) rb = Inl UninitialisedRead"
| "add_cells (Some x # fb) [] = Inl OutOfBounds"
| "add_cells (Some x # fb) (r # rb) =
     (case add_cells fb rb of Inl e \<Rightarrow> Inl e | Inr ys \<Rightarrow> Inr ((x + r) # ys))"

text \<open>
  \<open>writeDatacube4D(pars, buffer, mdims, offset, numFP, nameString)\<close>. The caller's buffer
  is divided in place, so the function returns it with the new file; the pass count
  \<open>numFP\<close> is the argument \<open>num_FP\<close>. A failure is an
  exception of the storage library or an access outside a buffer or to an unassigned cell.
\<close>

definition writeDatacube4D ::
  "Store \<Rightarrow> real list \<Rightarrow> idx4 \<Rightarrow> idx4 \<Rightarrow> real \<Rightarrow> string \<Rightarrow> io_error + (Store \<times> real list)" where
  "writeDatacube4D store buffer mdims offset num_FP nameString =
     (case datacubes store nameString of
        None \<Rightarrow> Inl NoSuchObject
      | Some cube \<Rightarrow>
          (case mdims of (d0, d1, d2, d3) \<Rightarrow>
             (let n = total4 mdims in
              if length buffer < n then Inl OutOfBounds
              else
                (let buffer1 = map (\<lambda>x. x / num_FP) (take n buffer) @ drop n buffer in
                 if \<not> restride_in_bounds d2 d3 n then Inl OutOfBounds
                 else
                   (let finalBuffer = restride d2 d3 buffer1 (replicate n None) in
                    if \<not> in_extent (cube_dims cube) offset mdims then Inl SelectionOutOfExtent
                    else
                      (let sel = hyperslab offset mdims;
                           readBuffer = read_slab cube sel
                       in case add_cells finalBuffer readBuffer of
                            Inl e \<Rightarrow> Inl e
                          | Inr summed \<Rightarrow>
                              Inr (store\<lparr>datacubes := (datacubes store)
                                            (nameString := Some (write_slab cube sel summed)),
                                         store_log := store_log store @
                                            [LockStore, ReadSlab nameString, WriteSlab nameString,
                                             Flush nameString, UnlockStore]\<rparr>,
                                   buffer1)))))))"

text \<open>The cells of a buffer that were never assigned.\<close>

definition unassigned :: "real option list \<Rightarrow> nat" where
  "unassigned fb = length (filter (\<lambda>c. c = None) fb)"

text \<open>A concrete store: one 2 x 1 x 2 x 3 dataset named \<open>cube\<close>, all of it 10.\<close>

definition store0 :: Store where
  "store0 = \<lparr>datacubes = (\<lambda>name. if name = ''cube''
                                  then Some \<lparr>cube_dims = (2, 1, 2, 3), cube_data = (\<lambda>c. 10)\<rparr>
                                  else None),
             store_log = []\<rparr>"

section \<open>Stitching a virtual dataset (\<open>writeVirtualDataSet\<close>, \<open>depthSeriesSG\<close>)\<close>

text \<open>
  A source dataset handle: where the dataset lives and its extents. One mapping of a
  virtual dataset: the selected hyperslab (start and count along every axis) and the
  source mapped onto it. The file is the table of its datasets by path.
\<close>

record DataSet =
  ds_file :: string
  ds_path :: string
  ds_dims :: "nat list"
  ds_data :: "real list"

record VirtualMapping =
  vm_start :: "nat list"
  vm_count :: "nat list"
  vm_file :: string
  vm_path :: string
  vm_src_dims :: "nat list"

record VirtualDataSet =
  vds_dims :: "nat list"
  vds_maps :: "VirtualMapping list"

datatype Node = Plain DataSet | Virtual VirtualDataSet

datatype vds_error = IndexOutOfRange | BackendRejected | NameExists

text \<open>
  The running maximum of one row of indices:
  \<open>for (j = 0; j < new_rank; j++) max_dims[j] = (max_dims[j] < row[j]) ? row[j] : max_dims[j];\<close>
\<close>

definition max_row :: "nat \<Rightarrow> nat list \<Rightarrow> nat list \<Rightarrow> nat list" where
  "max_row new_rank row max_dims =
     fold (\<lambda>j md. md[j := (if md ! j < row ! j then row ! j else md ! j)]) [0..<new_rank] max_dims"

definition max_dims_of :: "nat \<Rightarrow> nat list list \<Rightarrow> nat list" where
  "max_dims_of new_rank indices = fold (max_row new_rank) indices (replicate new_rank 0)"

text \<open>
  The mapping of source \<open>i\<close>: \<open>offset\<close> is zero along the original axes and the source's
  index tuple along the new ones; the count \<open>mdims_ind\<close> is the extent of the first source
  along the original axes and one along the new ones.
\<close>

definition source_mapping :: "nat list \<Rightarrow> nat \<Rightarrow> DataSet \<Rightarrow> nat list \<Rightarrow> VirtualMapping" where
  "source_mapping dims_out new_rank ds row =
     \<lparr>vm_start = replicate (length dims_out) 0 @ take new_rank row,
      vm_count = dims_out @ replicate new_rank 1,
      vm_file = ds_file ds, vm_path = ds_path ds, vm_src_dims = ds_dims ds\<rparr>"

text \<open>
  \<open>writeVirtualDataSet(group, dsetName, datasets, indices)\<close>. The parameter \<open>accept\<close> stands
  for the storage library, which may refuse a mapping when it is given the selection's
  count and the source's extents (\<open>plist.setVirtual\<close>). The vectors are read at
  \<open>indices[0]\<close>, \<open>indices[i][j]\<close> for every row and \<open>j < new_rank\<close>, \<open>datasets[0]\<close>, and
  \<open>indices[i]\<close> for every \<open>i < datasets.size()\<close>; a read outside a vector is
  \<open>IndexOutOfRange\<close>.
\<close>

definition writeVirtualDataSet ::
  "(nat list \<Rightarrow> nat list \<Rightarrow> bool) \<Rightarrow> (string \<Rightarrow> Node option) \<Rightarrow> string \<Rightarrow> string
     \<Rightarrow> DataSet list \<Rightarrow> nat list list \<Rightarrow> vds_error + (string \<Rightarrow> Node option)" where
  "writeVirtualDataSet accept hfile grp dsetName datasets indices =
     (if indices = [] then Inl IndexOutOfRange
      else
        (let new_rank = length (indices ! 0) in
         if \<exists>row \<in> set indices. length row < new_rank then Inl IndexOutOfRange
         else
           (let max_dims = max_dims_of new_rank indices in
            if datasets = [] \<or> length indices < length datasets then Inl IndexOutOfRange
            else
              (let dims_out = ds_dims (datasets ! 0);
                   mdims = dims_out @ map (\<lambda>m. m + 1) max_dims;
                   maps = map (\<lambda>i. source_mapping dims_out new_rank (datasets ! i) (indices ! i))
                              [0..<length datasets]
               in if \<exists>vm \<in> set maps. \<not> accept (vm_count vm) (vm_src_dims vm)
                  then Inl BackendRejected
                  else if hfile (grp @ ''/'' @ dsetName) \<noteq> None then Inl NameExists
                  else Inr (hfile(grp @ ''/'' @ dsetName
                                   \<mapsto> Virtual \<lparr>vds_dims = mdims, vds_maps = maps\<rparr>))))))"

text \<open>
  The index tuples \<open>depthSeriesSG\<close> builds for its \<open>numDataSets\<close> per-depth datasets:
  \<open>indices.push_back(std::vector<size_t>{i})\<close> for \<open>i = 0 .. numDataSets - 1\<close>.
\<close>

definition depth_series_indices :: "nat \<Rightarrow> nat list list" where
  "depth_series_indices numDataSets = map (\<lambda>i. [i]) [0..<numDataSets]"

text \<open>A mapping is accepted when both selections have the same number of elements.\<close>

definition same_element_count :: "nat list \<Rightarrow> nat list \<Rightarrow> bool" where
  "same_element_count count src_dims = (prod_list count = prod_list src_dims)"

text \<open>Concrete source datasets used to instantiate the theorems below.\<close>

definition src_a :: DataSet where
  "src_a = \<lparr>ds_file = ''out.h5'', ds_path = ''/realslices/vd0000/realslice'',
            ds_dims = [2, 3], ds_data = [1, 2, 3, 4, 5, 6]\<rparr>"

definition src_b :: DataSet where
  "src_b = \<lparr>ds_file = ''out.h5'', ds_path = ''/realslices/vd0001/realslice'',
            ds_dims = [2, 3], ds_data = [6, 5, 4, 3, 2, 1]\<rparr>"

definition src_c :: DataSet where
  "src_c = \<lparr>ds_file = ''out.h5'', ds_path = ''/realslices/vd0001/realslice'',
            ds_dims = [3, 2], ds_data = [6, 5, 4, 3, 2, 1]\<rparr>"

definition file0 :: "string \<Rightarrow> Node option" where
  "file0 = [ds_path src_a \<mapsto> Plain src_a, ds_path src_b \<mapsto> Plain src_b]"

definition file1 :: "string \<Rightarrow> Node option" where
  "file1 = [ds_path src_a \<mapsto> Plain src_a, ds_path src_c \<mapsto> Plain src_c]"

section \<open>Properties of the cropping scan\<close>

lemma crop_scan_prefix:
  assumes "i + k \<le> length q"
    and "\<forall>n<k. q ! (i + n) < qMax"
    and "i + k < length q \<longrightarrow> \<not> q ! (i + k) < qMax"
  shows "crop_scan q qMax i ind = ind + k"
  using assms
proof (induction k arbitrary: i ind)
  case 0
  then show ?case by (simp add: crop_scan.simps)
next
  case (Suc k)
  have here: "q ! i < qMax" using Suc.prems(2) by force
  have "crop_scan q qMax (Suc i) (Suc ind) = Suc ind + k"
  proof (rule Suc.IH)
    show "Suc i + k \<le> length q" using Suc.prems(1) by simp
    show "\<forall>n<k. q ! (Suc i + n) < qMax"
    proof (intro allI impI)
      fix n assume "n < k"
      then have "q ! (i + Suc n) < qMax" using Suc.prems(2) by blast
      then show "q ! (Suc i + n) < qMax" by simp
    qed
    show "Suc i + k < length q \<longrightarrow> \<not> q ! (Suc i + k) < qMax"
      using Suc.prems(3) by simp
  qed
  moreover have "i < length q" using Suc.prems(1) by simp
  ultimately show ?case using here by (subst crop_scan.simps) simp
qed

text \<open>
  C5. With cropping enabled and cutoff \<open>qMax = crop4Damax / lambda\<close>: if the frequency
  axis has exactly \<open>k\<close> contiguous samples strictly below \<open>qMax\<close> starting at index zero
  (the sample at index \<open>k\<close>, if there is one, is not below \<open>qMax\<close>), the cropped extent
  along that axis is \<open>2 * k\<close>. This holds for the x axis and for the y axis.
\<close>

theorem crop_extent_twice_count:
  assumes "crop4DOutput (meta ps)"
    and "qMax = crop4Damax (meta ps) / lambda ps"
    and "kx \<le> length (qx ps)" and "\<forall>n<kx. qx ps ! n < qMax"
    and "kx < length (qx ps) \<longrightarrow> \<not> qx ps ! kx < qMax"
    and "ky \<le> length (qy ps)" and "\<forall>n<ky. qy ps ! n < qMax"
    and "ky < length (qy ps) \<longrightarrow> \<not> qy ps ! ky < qMax"
  shows "qxInd_max (setup4DOutput_extents ps) = 2 * kx
       \<and> qyInd_max (setup4DOutput_extents ps) = 2 * ky
       \<and> setup4DOutput_data_dims ps
           = [length (xp ps), length (yp ps), 2 * kx, 2 * ky]"
proof -
  have x: "crop_scan (qx ps) qMax 0 0 = 0 + kx"
    by (rule crop_scan_prefix) (use assms in simp_all)
  have y: "crop_scan (qy ps) qMax 0 0 = 0 + ky"
    by (rule crop_scan_prefix) (use assms in simp_all)
  show ?thesis
    using x y assms(1,2)
    by (simp add: setup4DOutput_extents_def setup4DOutput_data_dims_def Let_def)
qed

theorem crop_extent_twice_count_witness:
  "crop4DOutput (meta pars_crop)
   \<and> qxInd_max (setup4DOutput_extents pars_crop) = 6
   \<and> qyInd_max (setup4DOutput_extents pars_crop) = 4
   \<and> setup4DOutput_data_dims pars_crop = [2, 3, 6, 4]"
proof -
  have c: "crop4DOutput (meta pars_crop)"
    by (simp add: pars_crop_def)
  have q: "(5 / 2 :: real) = crop4Damax (meta pars_crop) / lambda pars_crop"
    by (simp add: pars_crop_def pars0_def meta0_def)
  have x1: "(3::nat) \<le> length (qx pars_crop)"
    by (simp add: pars_crop_def pars0_def)
  have x2: "\<forall>n<(3::nat). qx pars_crop ! n < 5 / 2"
    by (simp add: pars_crop_def pars0_def less_Suc_eq numeral_3_eq_3)
  have x3: "(3::nat) < length (qx pars_crop) \<longrightarrow> \<not> qx pars_crop ! 3 < 5 / 2"
    by (simp add: pars_crop_def pars0_def)
  have y1: "(2::nat) \<le> length (qy pars_crop)"
    by (simp add: pars_crop_def pars0_def)
  have y2: "\<forall>n<(2::nat). qy pars_crop ! n < 5 / 2"
    by (simp add: pars_crop_def pars0_def less_Suc_eq numeral_2_eq_2)
  have y3: "(2::nat) < length (qy pars_crop) \<longrightarrow> \<not> qy pars_crop ! 2 < 5 / 2"
    by (simp add: pars_crop_def pars0_def)
  show ?thesis
    using crop_extent_twice_count [OF c q x1 x2 x3 y1 y2 y3] c
    by (simp add: pars_crop_def pars0_def)
qed

text \<open>
  C6, the claim as stated, at a Multislice block with an 8 x 4 probe array and cropping
  disabled: the declared extent along the x frequency axis is 4, which is not one quarter
  of the probe array's extent.
\<close>

theorem multislice_extent_not_quarter:
  "\<not> crop4DOutput (meta pars_ms) \<and> algorithm (meta pars_ms) = Multislice
   \<and> psiProbeInit_dimi pars_ms = 8
   \<and> qxInd_max (setup4DOutput_extents pars_ms) = 4
   \<and> qxInd_max (setup4DOutput_extents pars_ms) \<noteq> psiProbeInit_dimi pars_ms div 4"
  by (simp add: setup4DOutput_extents_def pars_ms_def pars0_def meta0_def)

text \<open>
  C6, amended. With cropping disabled, the declared frequency extents are the full
  sampled axes with zero offsets unless the algorithm is Multislice; for Multislice each
  extent is one half of the probe array's extent along that axis, and the offset into the
  frequency axis is one quarter of the probe array's extent along that axis.
\<close>

theorem uncropped_extents:
  assumes "\<not> crop4DOutput (meta ps)"
  shows "(algorithm (meta ps) \<noteq> Multislice \<longrightarrow>
            setup4DOutput_extents ps
              = \<lparr>qxInd_max = length (qx ps), qyInd_max = length (qy ps),
                 offset_qx = 0, offset_qy = 0\<rparr>)
       \<and> (algorithm (meta ps) = Multislice \<longrightarrow>
            setup4DOutput_extents ps
              = \<lparr>qxInd_max = psiProbeInit_dimi ps div 2,
                 qyInd_max = psiProbeInit_dimj ps div 2,
                 offset_qx = psiProbeInit_dimi ps div 4,
                 offset_qy = psiProbeInit_dimj ps div 4\<rparr>)"
  using assms by (simp add: setup4DOutput_extents_def)

theorem uncropped_extents_witness:
  "\<not> crop4DOutput (meta pars_ms) \<and> \<not> crop4DOutput (meta pars0)
   \<and> algorithm (meta pars0) \<noteq> Multislice \<and> algorithm (meta pars_ms) = Multislice
   \<and> setup4DOutput_extents pars0
       = \<lparr>qxInd_max = 8, qyInd_max = 4, offset_qx = 0, offset_qy = 0\<rparr>
   \<and> setup4DOutput_extents pars_ms
       = \<lparr>qxInd_max = 4, qyInd_max = 2, offset_qx = 2, offset_qy = 1\<rparr>"
proof -
  have a: "\<not> crop4DOutput (meta pars0)" by (simp add: pars0_def meta0_def)
  have b: "\<not> crop4DOutput (meta pars_ms)" by (simp add: pars_ms_def meta0_def)
  have c: "algorithm (meta pars0) \<noteq> Multislice" by (simp add: pars0_def meta0_def)
  have d: "algorithm (meta pars_ms) = Multislice" by (simp add: pars_ms_def)
  show ?thesis
    using uncropped_extents [OF a] uncropped_extents [OF b] a b c d
    by (simp add: pars_ms_def pars0_def)
qed

section \<open>Properties of the worker threads\<close>

lemma emit_simps [simp]:
  "trace (emit e w) = trace w @ [e]"
  "window (emit e w) = window w"
  "files (emit e w) = files w"
  "rand_seq (emit e w) = rand_seq w"
  "rand_calls (emit e w) = rand_calls w"
  by (simp_all add: emit_def)

lemma in_world_simps [simp]:
  "world (in_world f st) = f (world st)"
  "params (in_world f st) = params st"
  "this_meta (in_world f st) = this_meta st"
  by (simp_all add: in_world_def)

lemma in_window_simps [simp]:
  "window (world (in_window g st)) = g (window (world st))"
  "trace (world (in_window g st)) = trace (world st)"
  "files (world (in_window g st)) = files (world st)"
  "rand_seq (world (in_window g st)) = rand_seq (world st)"
  "rand_calls (world (in_window g st)) = rand_calls (world st)"
  "params (in_window g st) = params st"
  "this_meta (in_window g st) = this_meta st"
  by (simp_all add: in_window_def)

lemma start_run_simps [simp]:
  "this_meta (start_run K m w) = m"
  "meta (params (start_run K m w)) = m"
  "world (start_run K m w) = w"
  by (simp_all add: start_run_def Parameters_ctor_def)

lemma invoke_kernel_simps [simp]:
  "params (invoke_kernel s f st) = f (params st)"
  "this_meta (invoke_kernel s f st) = this_meta st"
  "window (world (invoke_kernel s f st)) = window (world st)"
  "files (world (invoke_kernel s f st)) = files (world st)"
  "rand_seq (world (invoke_kernel s f st)) = rand_seq (world st)"
  "rand_calls (world (invoke_kernel s f st)) = rand_calls (world st)"
  "trace (world (invoke_kernel s f st)) = trace (world st) @ [KernelRun s (meta (params st))]"
  by (simp_all add: invoke_kernel_def)

lemma kernel_runs_simps [simp]:
  "kernel_runs s [] = 0"
  "kernel_runs s (tr @ tr') = kernel_runs s tr + kernel_runs s tr'"
  "kernel_runs s (KernelRun s' m # tr) = (if s' = s then 1 else 0) + kernel_runs s tr"
  "kernel_runs s (Message msg # tr) = kernel_runs s tr"
  "kernel_runs s (Signal sg # tr) = kernel_runs s tr"
  "kernel_runs s (Acquire l # tr) = kernel_runs s tr"
  "kernel_runs s (Release l # tr) = kernel_runs s tr"
  "kernel_runs s (Configure m # tr) = kernel_runs s tr"
  "kernel_runs s (FileCreate p # tr) = kernel_runs s tr"
  "kernel_runs s (FileOpen p # tr) = kernel_runs s tr"
  "kernel_runs s (FileClose # tr) = kernel_runs s tr"
  "kernel_runs s (FileRemove p # tr) = kernel_runs s tr"
  "kernel_runs s (Sleep n # tr) = kernel_runs s tr"
  "kernel_runs s (Save p # tr) = kernel_runs s tr"
  by (simp_all add: kernel_runs_def is_kernel_run_def)

lemma store_pars_simps [simp]:
  "params (store_pars st) = params st"
  "this_meta (store_pars st) = this_meta st"
  "window (world (store_pars st)) = (window (world st))\<lparr>pars := params st\<rparr>"
  "trace (world (store_pars st)) = trace (world st) @ [Acquire dataLock, Release dataLock]"
  "files (world (store_pars st)) = files (world st)"
  by (simp_all add: store_pars_def)

lemma load_pars_simps [simp]:
  "params (load_pars st) = pars (window (world st))"
  "this_meta (load_pars st) = this_meta st"
  "window (world (load_pars st)) = window (world st)"
  "trace (world (load_pars st)) = trace (world st) @
     [Acquire dataLock, Message ''Potential already calculated. Using existing result.'',
      Release dataLock]"
  "files (world (load_pars st)) = files (world st)"
  by (simp_all add: load_pars_def in_world_def)

lemma notify_potential_simps [simp]:
  "params (notify_potential st) = params st"
  "this_meta (notify_potential st) = this_meta st"
  "window (world (notify_potential st)) = potentialReceived (pot (params st)) (window (world st))"
  "trace (world (notify_potential st)) = trace (world st) @ [Signal ''potentialCalculated'']"
  "files (world (notify_potential st)) = files (world st)"
  by (simp_all add: notify_potential_def)

lemma window_accessors [simp]:
  "getMetadata (potentialReceived p mw) = getMetadata mw"
  "getMetadata (resetCalculation mw) = getMetadata mw"
  "getMetadata (mw\<lparr>pars := q\<rparr>) = getMetadata mw"
  "potentialIsReady (potentialReceived p mw)"
  "\<not> potentialIsReady (resetCalculation mw)"
  "potentialIsReady (mw\<lparr>pars := q\<rparr>) = potentialIsReady mw"
  "pars (potentialReceived p mw) = pars mw"
  "pars (resetCalculation mw) = pars mw"
  by (simp_all add: getMetadata_def potentialReceived_def resetCalculation_def
        potentialIsReady_def)


lemma potential_stage_computed:
  assumes "\<not> potentialIsReady (window (world st))
           \<or> meta (params st) \<noteq> getMetadata (window (world st))"
  shows "potential_stage K st =
           notify_potential
             (store_pars
                (in_world (emit (Message ''Potential Calculated''))
                   (invoke_kernel Potential (PRISM01_calcPotential K)
                      (in_window resetCalculation st))))"
  using assms by (auto simp add: potential_stage_def)

lemma potential_stage_window [simp]:
  "getMetadata (window (world (potential_stage K st))) = getMetadata (window (world st))"
  "potentialIsReady (window (world (potential_stage K st)))"
  "pars (window (world (potential_stage K st))) = params (potential_stage K st)"
  by (simp_all add: potential_stage_def)

section \<open>Properties of the frozen-phonon passes\<close>

lemma notify_potential_rand [simp]:
  "rand_seq (world (notify_potential st)) = rand_seq (world st)"
  "rand_calls (world (notify_potential st)) = rand_calls (world st)"
  by (simp_all add: notify_potential_def)

lemma run_pass_params [simp]:
  "params (run_pass K thr st) = pipeline K thr (params st)"
  by (cases thr) (simp_all add: run_pass_def pipeline_def)

lemma run_pass_trace:
  "trace (world (run_pass K thr st)) =
     trace (world st) @ KernelRun Potential (meta (params st)) # Signal ''potentialCalculated'' #
       (case thr of
          FullPRISMCalc \<Rightarrow>
            [KernelRun SMatrix (meta (PRISM01_calcPotential K (params st))),
             KernelRun Output (meta (PRISM02_calcSMatrix K (PRISM01_calcPotential K (params st))))]
        | FullMultisliceCalc \<Rightarrow>
            [KernelRun Output (meta (PRISM01_calcPotential K (params st)))])"
  by (cases thr) (simp_all add: run_pass_def)

lemma pass_params_meta [simp]:
  "meta (pass_params K thr m i) = m"
  by (cases thr) (simp_all add: pass_params_def Parameters_ctor_def)

lemma pass_meta_simps [simp]:
  "pass_meta (pass_meta m a) b = pass_meta m (a + b)"
  "pass_meta m 0 = m"
  "randomSeed (pass_meta m a) = randomSeed m"
  "numFP (pass_meta m a) = numFP m"
  "saveDPC_CoM (pass_meta m a) = saveDPC_CoM m"
  "filenameOutput (pass_meta m a) = filenameOutput m"
  "fpNum (pass_meta m a) = fpNum m + a"
  by (simp_all add: pass_meta_def)

lemma fp_body_this_meta:
  "this_meta (run (fp_body K thr i s)) = pass_meta (this_meta (run s)) 1"
  by (simp add: fp_body_def rand_def Let_def pass_meta_def)

lemma fp_body_params:
  "params (run (fp_body K thr i s)) =
     (params (run s))\<lparr>meta := (meta (params (run s)))
        \<lparr>randomSeed := rand_seq (world (run s)) (rand_calls (world (run s))) mod 100000\<rparr>\<rparr>"
  by (simp add: fp_body_def rand_def Let_def)

lemma fp_body_net_output:
  "net_output (fp_body K thr i s) =
     add_arrays (net_output s)
       (output_arr (pipeline K thr (pass_params K thr (pass_meta (this_meta (run s)) 1) i)))"
  by (simp add: fp_body_def rand_def Let_def pass_meta_def)

lemma run_pass_world [simp]:
  "window (world (run_pass K thr st))
     = potentialReceived (pot (PRISM01_calcPotential K (params st))) (window (world st))"
  "files (world (run_pass K thr st)) = files (world st)"
  "rand_seq (world (run_pass K thr st)) = rand_seq (world st)"
  "rand_calls (world (run_pass K thr st)) = rand_calls (world st)"
  by (simp_all add: run_pass_def Let_def split: CalcThread.splits)

lemma fp_body_world:
  "window (world (run (fp_body K thr i s))) =
     potentialReceived
       (pot (PRISM01_calcPotential K (pass_params K thr (pass_meta (this_meta (run s)) 1) i)))
       (window (world (run s)))"
  "files (world (run (fp_body K thr i s))) = files (world (run s))"
  "rand_seq (world (run (fp_body K thr i s))) = rand_seq (world (run s))"
  "rand_calls (world (run (fp_body K thr i s))) = Suc (rand_calls (world (run s)))"
  by (simp_all add: fp_body_def rand_def Let_def pass_meta_def)

lemma fp_body_trace:
  "trace (world (run (fp_body K thr i s))) =
     trace (world (run s)) @
       [Signal ''Frozen Phonon'', Signal ''resetOutputs'',
        FileOpen (filenameOutput (this_meta (run s))),
        KernelRun Potential (pass_meta (this_meta (run s)) 1),
        Signal ''potentialCalculated''] @
       (case thr of
          FullPRISMCalc \<Rightarrow>
            [KernelRun SMatrix
               (meta (PRISM01_calcPotential K
                  (pass_params K thr (pass_meta (this_meta (run s)) 1) i))),
             KernelRun Output
               (meta (PRISM02_calcSMatrix K (PRISM01_calcPotential K
                  (pass_params K thr (pass_meta (this_meta (run s)) 1) i))))]
        | FullMultisliceCalc \<Rightarrow>
            [KernelRun Output
               (meta (PRISM01_calcPotential K
                  (pass_params K thr (pass_meta (this_meta (run s)) 1) i)))]) @
       [FileClose]"
  by (simp add: fp_body_def rand_def Let_def pass_meta_def run_pass_trace
           split: CalcThread.splits)

lemma fp_body_numFP [simp]:
  "numFP (meta (params (run (fp_body K thr i s)))) = numFP (meta (params (run s)))"
  "output_arr (params (run (fp_body K thr i s))) = output_arr (params (run s))"
  "saveDPC_CoM (meta (params (run (fp_body K thr i s)))) = saveDPC_CoM (meta (params (run s)))"
  by (simp_all add: fp_body_params)

text \<open>The loop, by induction on its own recursion.\<close>

lemma fp_loop_numFP [simp]:
  "numFP (meta (params (run (fp_loop K thr i s)))) = numFP (meta (params (run s)))"
proof (induction K thr i s rule: fp_loop.induct)
  case (1 K thr fp_num s)
  then show ?case by (subst fp_loop.simps) simp
qed

lemma fp_loop_output_arr [simp]:
  "output_arr (params (run (fp_loop K thr i s))) = output_arr (params (run s))"
proof (induction K thr i s rule: fp_loop.induct)
  case (1 K thr fp_num s)
  then show ?case by (subst fp_loop.simps) simp
qed

lemma fp_loop_net_output:
  assumes "this_meta (run s) = pass_meta M (i - 1)" and "1 \<le> i"
  shows "net_output (fp_loop K thr i s) =
           foldl add_arrays (net_output s)
             (map (pass_output K thr M) [i..<numFP (meta (params (run s)))])"
  using assms
proof (induction K thr i s rule: fp_loop.induct)
  case (1 K thr fp_num s)
  show ?case
  proof (cases "fp_num < numFP (meta (params (run s)))")
    case True
    have m: "this_meta (run (fp_body K thr fp_num s)) = pass_meta M (Suc fp_num - 1)"
      using "1.prems" by (simp add: fp_body_this_meta)
    have ih: "net_output (fp_loop K thr (Suc fp_num) (fp_body K thr fp_num s)) =
                foldl add_arrays (net_output (fp_body K thr fp_num s))
                  (map (pass_output K thr M) [Suc fp_num..<numFP (meta (params (run s)))])"
      using "1.IH" [OF True m] by simp
    have step: "net_output (fp_body K thr fp_num s)
                  = add_arrays (net_output s) (pass_output K thr M fp_num)"
      using "1.prems" by (simp add: fp_body_net_output pass_output_def)
    show ?thesis
      using True ih step by (subst fp_loop.simps) (simp add: upt_conv_Cons)
  next
    case False
    then show ?thesis by (subst fp_loop.simps) simp
  qed
qed

text \<open>Adding tensors of one shape into a running sum, element by element.\<close>

lemma add_arrays_nth:
  assumes "length v = length acc"
  shows "add_arrays acc v = map (\<lambda>k. acc ! k + v ! k) [0..<length acc]"
  using assms by (intro nth_equalityI) (simp_all add: add_arrays_def)

lemma foldl_add_arrays:
  assumes "\<forall>v\<in>set vs. length v = length acc"
  shows "foldl add_arrays acc vs = map (\<lambda>k. acc ! k + (\<Sum>v\<leftarrow>vs. v ! k)) [0..<length acc]"
  using assms
proof (induction vs arbitrary: acc)
  case Nil
  then show ?case by (simp add: map_nth)
next
  case (Cons v vs)
  have len: "length (add_arrays acc v) = length acc"
    using Cons.prems by (simp add: add_arrays_def)
  have "foldl add_arrays (add_arrays acc v) vs
          = map (\<lambda>k. add_arrays acc v ! k + (\<Sum>u\<leftarrow>vs. u ! k)) [0..<length acc]"
    using Cons.IH [of "add_arrays acc v"] Cons.prems len by simp
  also have "\<dots> = map (\<lambda>k. acc ! k + (\<Sum>u\<leftarrow>v # vs. u ! k)) [0..<length acc]"
    using Cons.prems by (intro map_cong) (simp_all add: add_arrays_def)
  finally show ?case by simp
qed

lemma mean_of_sum:
  assumes "\<forall>v\<in>set vs. length v = length v0"
  shows "map (\<lambda>x. x / real (Suc (length vs))) (foldl add_arrays v0 vs)
           = elementwise_mean (v0 # vs)"
  using foldl_add_arrays [OF assms] by (simp add: elementwise_mean_def)

text \<open>
  C2. For a requested pass count \<open>N \<ge> 1\<close>: with \<open>v0\<close> the output of the first pass (the
  output the local parameter block holds when the accumulation starts) and \<open>v1, ...\<close> the
  outputs of the further passes, all of one shape, the accumulation leaves in
  \<open>params.output\<close> the elementwise arithmetic mean of the \<open>N\<close> outputs; this is the tensor
  the thread then stores in the window's cached block and hands to the window as the
  result. (For \<open>N = 1\<close> the code skips the block: the mean of one output is that output.)
\<close>

theorem frozen_phonon_mean:
  assumes "numFP (meta (params st)) = N" and "1 \<le> N"
    and "\<forall>i\<in>{1..<N}. length (pass_output K thr (this_meta st) i)
                        = length (output_arr (params st))"
  shows "output_arr (params (frozen_phonons K thr st))
           = elementwise_mean
               (output_arr (params st) # map (pass_output K thr (this_meta st)) [1..<N])
       \<and> length (output_arr (params st) # map (pass_output K thr (this_meta st)) [1..<N]) = N
       \<and> output_arr (pars (window (world (finish_run (frozen_phonons K thr st)))))
           = output_arr (params (frozen_phonons K thr st))
       \<and> outputArray (window (world (finish_run (frozen_phonons K thr st))))
           = output_arr (params (frozen_phonons K thr st))"
proof (intro conjI)
  let ?v0 = "output_arr (params st)"
  let ?vs = "map (pass_output K thr (this_meta st)) [1..<N]"
  have shapes: "\<forall>v\<in>set ?vs. length v = length ?v0"
    using assms(3) by auto
  show "output_arr (params (frozen_phonons K thr st)) = elementwise_mean (?v0 # ?vs)"
  proof (cases "N = 1")
    case True
    then show ?thesis
      using assms(1) by (simp add: frozen_phonons_def elementwise_mean_def map_nth)
  next
    case False
    then have many: "1 < numFP (meta (params st))" using assms(1,2) by simp
    have net: "net_output (fp_loop K thr (Suc 0)
                 \<lparr>run = st, net_output = output_arr (params st), DPC_CoM_output = d\<rparr>)
               = foldl add_arrays ?v0 ?vs" for d
      using fp_loop_net_output
              [of "\<lparr>run = st, net_output = output_arr (params st), DPC_CoM_output = d\<rparr>"
                  "this_meta st" 1 K thr]
            assms(1)
      by simp
    have e: "Suc (length ?vs) = N" using assms(2) by simp
    have "output_arr (params (frozen_phonons K thr st))
            = map (\<lambda>x. x / real N) (foldl add_arrays ?v0 ?vs)"
      using many assms(1) by (simp add: frozen_phonons_def Let_def net)
    moreover have "map (\<lambda>x. x / real N) (foldl add_arrays ?v0 ?vs)
                     = elementwise_mean (?v0 # ?vs)"
      using mean_of_sum [OF shapes] unfolding e .
    ultimately show ?thesis by simp
  qed
  show "length (?v0 # ?vs) = N" using assms(2) by simp
  show "output_arr (pars (window (world (finish_run (frozen_phonons K thr st)))))
           = output_arr (params (frozen_phonons K thr st))"
    by (simp add: finish_run_def Let_def outputReceived_def)
  show "outputArray (window (world (finish_run (frozen_phonons K thr st))))
           = output_arr (params (frozen_phonons K thr st))"
    by (simp add: finish_run_def Let_def outputReceived_def)
qed

theorem frozen_phonon_mean_witness:
  "numFP (meta (params st_fp)) = 3 \<and> (1::nat) \<le> 3
   \<and> map (pass_output K0 FullPRISMCalc (this_meta st_fp)) [1..<3] = [[1, 3], [2, 3]]
   \<and> output_arr (params (frozen_phonons K0 FullPRISMCalc st_fp)) = [3, 3]
   \<and> outputArray (window (world (finish_run (frozen_phonons K0 FullPRISMCalc st_fp)))) = [3, 3]"
proof -
  have n: "numFP (meta (params st_fp)) = 3"
    by (simp add: st_fp_def meta_fp_def)
  have v0: "output_arr (params st_fp) = [6, 3]"
    by (simp add: st_fp_def)
  have vi: "pass_output K0 FullPRISMCalc (this_meta st_fp) i = [real i, 3]" for i
    by (simp add: pass_output_def pipeline_def pass_params_def Parameters_ctor_def K0_def
          pass_meta_def st_fp_def meta_fp_def meta0_def)
  have vs: "map (pass_output K0 FullPRISMCalc (this_meta st_fp)) [1..<3] = [[1, 3], [2, 3]]"
    by (simp add: vi upt_rec)
  have shapes: "\<forall>i\<in>{1..<3}. length (pass_output K0 FullPRISMCalc (this_meta st_fp) i)
                                 = length (output_arr (params st_fp))"
    by (simp add: vi v0)
  show ?thesis
    using frozen_phonon_mean [OF n _ shapes] n vs
    by (simp add: v0 elementwise_mean_def upt_rec)
qed

section \<open>The metadata of the further passes\<close>

lemma kernel_metas_simps [simp]:
  "kernel_metas s [] = []"
  "kernel_metas s (tr @ tr') = kernel_metas s tr @ kernel_metas s tr'"
  "kernel_metas s (KernelRun s' m # tr) = (if s' = s then [m] else []) @ kernel_metas s tr"
  "kernel_metas s (Message msg # tr) = kernel_metas s tr"
  "kernel_metas s (Signal sg # tr) = kernel_metas s tr"
  "kernel_metas s (Acquire l # tr) = kernel_metas s tr"
  "kernel_metas s (Release l # tr) = kernel_metas s tr"
  "kernel_metas s (Configure m # tr) = kernel_metas s tr"
  "kernel_metas s (FileCreate p # tr) = kernel_metas s tr"
  "kernel_metas s (FileOpen p # tr) = kernel_metas s tr"
  "kernel_metas s (FileClose # tr) = kernel_metas s tr"
  "kernel_metas s (FileRemove p # tr) = kernel_metas s tr"
  "kernel_metas s (Sleep n # tr) = kernel_metas s tr"
  "kernel_metas s (Save p # tr) = kernel_metas s tr"
  by (simp_all add: kernel_metas_def)

lemma fp_body_potential_metas:
  "kernel_metas Potential (trace (world (run (fp_body K thr i s))))
     = kernel_metas Potential (trace (world (run s))) @ [pass_meta (this_meta (run s)) 1]"
  by (simp add: fp_body_trace split: CalcThread.splits)

text \<open>
  In every run, the potential kernel of further pass \<open>j\<close> is given the thread's metadata
  with \<open>fpNum\<close> incremented \<open>j\<close> times and nothing else changed: its random seed is the
  seed the thread started with.
\<close>

lemma fp_loop_potential_metas:
  assumes "this_meta (run s) = pass_meta M (i - 1)" and "1 \<le> i"
  shows "kernel_metas Potential (trace (world (run (fp_loop K thr i s))))
           = kernel_metas Potential (trace (world (run s)))
             @ map (pass_meta M) [i..<numFP (meta (params (run s)))]"
  using assms
proof (induction K thr i s rule: fp_loop.induct)
  case (1 K thr fp_num s)
  show ?case
  proof (cases "fp_num < numFP (meta (params (run s)))")
    case True
    have m: "this_meta (run (fp_body K thr fp_num s)) = pass_meta M (Suc fp_num - 1)"
      using "1.prems" by (simp add: fp_body_this_meta)
    have ih: "kernel_metas Potential
                (trace (world (run (fp_loop K thr (Suc fp_num) (fp_body K thr fp_num s)))))
              = kernel_metas Potential (trace (world (run (fp_body K thr fp_num s))))
                @ map (pass_meta M) [Suc fp_num..<numFP (meta (params (run s)))]"
      using "1.IH" [OF True m] by simp
    have step: "kernel_metas Potential (trace (world (run (fp_body K thr fp_num s))))
                  = kernel_metas Potential (trace (world (run s))) @ [pass_meta M fp_num]"
      using "1.prems" by (simp add: fp_body_potential_metas)
    show ?thesis
      using True ih step by (subst fp_loop.simps) (simp add: upt_conv_Cons)
  next
    case False
    then show ?thesis by (subst fp_loop.simps) simp
  qed
qed

lemma fp_loop_rand:
  "rand_seq (world (run (fp_loop K thr i s))) = rand_seq (world (run s))
   \<and> rand_calls (world (run (fp_loop K thr i s)))
       = rand_calls (world (run s)) + (numFP (meta (params (run s))) - i)"
proof (induction K thr i s rule: fp_loop.induct)
  case (1 K thr fp_num s)
  then show ?case by (subst (1 2) fp_loop.simps) (auto simp add: fp_body_world)
qed

lemma fp_loop_seed:
  assumes "i < numFP (meta (params (run s)))"
  shows "randomSeed (meta (params (run (fp_loop K thr i s))))
           = rand_seq (world (run s))
               (rand_calls (world (run s)) + (numFP (meta (params (run s))) - i) - 1) mod 100000"
  using assms
proof (induction K thr i s rule: fp_loop.induct)
  case (1 K thr fp_num s)
  show ?case
  proof (cases "Suc fp_num < numFP (meta (params (run s)))")
    case True
    then show ?thesis
      using "1.IH" [OF "1.prems"] "1.prems"
      by (subst fp_loop.simps) (simp add: fp_body_world Suc_diff_Suc)
  next
    case False
    then have last: "numFP (meta (params (run s))) - fp_num = 1" using "1.prems" by simp
    have stop: "fp_loop K thr (Suc fp_num) (fp_body K thr fp_num s) = fp_body K thr fp_num s"
      using False by (subst fp_loop.simps) simp
    show ?thesis
      using "1.prems" by (subst fp_loop.simps) (simp add: stop last fp_body_params)
  qed
qed

lemma frozen_phonons_world:
  assumes "1 < numFP (meta (params st))"
  shows "kernel_metas Potential (trace (world (frozen_phonons K thr st)))
           = kernel_metas Potential (trace (world st))
             @ map (pass_meta (this_meta st)) [1..<numFP (meta (params st))]"
    and "randomSeed (meta (params (frozen_phonons K thr st)))
           = rand_seq (world st)
               (rand_calls (world st) + (numFP (meta (params st)) - 1) - 1) mod 100000"
    and "rand_calls (world (frozen_phonons K thr st))
           = rand_calls (world st) + (numFP (meta (params st)) - 1)"
proof -
  let ?s0 = "\<lparr>run = st, net_output = output_arr (params st),
               DPC_CoM_output = (if saveDPC_CoM (meta (params st))
                                 then DPC_CoM (params st) else [])\<rparr>"
  have w: "world (frozen_phonons K thr st) = world (run (fp_loop K thr 1 ?s0))"
    and p: "meta (params (frozen_phonons K thr st)) = meta (params (run (fp_loop K thr 1 ?s0)))"
    using assms by (simp_all add: frozen_phonons_def Let_def)
  show "kernel_metas Potential (trace (world (frozen_phonons K thr st)))
           = kernel_metas Potential (trace (world st))
             @ map (pass_meta (this_meta st)) [1..<numFP (meta (params st))]"
    unfolding w using fp_loop_potential_metas [of ?s0 "this_meta st" 1 K thr] by simp
  show "randomSeed (meta (params (frozen_phonons K thr st)))
           = rand_seq (world st)
               (rand_calls (world st) + (numFP (meta (params st)) - 1) - 1) mod 100000"
    unfolding p using fp_loop_seed [of 1 ?s0 K thr] assms by simp
  show "rand_calls (world (frozen_phonons K thr st))
           = rand_calls (world st) + (numFP (meta (params st)) - 1)"
    unfolding w using fp_loop_rand [of K thr 1 ?s0] by simp
qed

lemma create_output_file_simps [simp]:
  "this_meta (create_output_file st) = this_meta st"
  "meta (params (create_output_file st)) = meta (params st)"
  "window (world (create_output_file st)) = window (world st)"
  "rand_seq (world (create_output_file st)) = rand_seq (world st)"
  "rand_calls (world (create_output_file st)) = rand_calls (world st)"
  "trace (world (create_output_file st))
     = trace (world st) @ [FileCreate (filenameOutput (meta (params st)))]"
  by (simp_all add: create_output_file_def Let_def)

lemma potential_stage_simps [simp]:
  "this_meta (potential_stage K st) = this_meta st"
  "rand_seq (world (potential_stage K st)) = rand_seq (world st)"
  "rand_calls (world (potential_stage K st)) = rand_calls (world st)"
  by (simp_all add: potential_stage_def store_pars_def load_pars_def)

lemma potential_stage_metas:
  "kernel_metas Potential (trace (world (potential_stage K st)))
     = kernel_metas Potential (trace (world st))
       @ (if \<not> potentialIsReady (window (world st))
             \<or> meta (params st) \<noteq> getMetadata (window (world st))
          then [meta (params st)] else [])"
  by (simp add: potential_stage_def)

lemma output_stages_simps [simp]:
  "this_meta (output_stages K thr st) = this_meta st"
  "rand_seq (world (output_stages K thr st)) = rand_seq (world st)"
  "rand_calls (world (output_stages K thr st)) = rand_calls (world st)"
  "window (world (output_stages K thr st)) = window (world st)"
  "kernel_metas Potential (trace (world (output_stages K thr st)))
     = kernel_metas Potential (trace (world st))"
  by (simp_all add: output_stages_def split: CalcThread.splits)

lemma close_file_simps [simp]:
  "this_meta (close_file st) = this_meta st"
  "meta (params (close_file st)) = meta (params st)"
  "output_arr (params (close_file st)) = output_arr (params st)"
  "window (world (close_file st)) = window (world st)"
  "rand_seq (world (close_file st)) = rand_seq (world st)"
  "rand_calls (world (close_file st)) = rand_calls (world st)"
  "trace (world (close_file st)) = trace (world st) @ [FileClose]"
  by (simp_all add: close_file_def)

lemma store_pars_rand [simp]:
  "rand_seq (world (store_pars st)) = rand_seq (world st)"
  "rand_calls (world (store_pars st)) = rand_calls (world st)"
  by (simp_all add: store_pars_def)

lemma finish_run_simps [simp]:
  "kernel_metas Potential (trace (world (finish_run st)))
     = kernel_metas Potential (trace (world st))"
  "rand_calls (world (finish_run st)) = rand_calls (world st)"
  "pars (window (world (finish_run st))) = params st"
  by (simp_all add: finish_run_def Let_def outputReceived_def)

text \<open>
  C3, the code at a run of three passes. The thread's metadata has random seed 7; the
  window's potential is not ready; \<open>rand()\<close> returns 123456 and then 123457. The potential
  kernel is invoked three times. The two further passes run with metadata whose seed is
  still 7 (only \<open>fpNum\<close> differs): the two drawn seeds, 23456 and 23457, are assigned to the
  metadata of the enclosing parameter block, which no pass runs with; the last of them
  is in the block the thread leaves in the window.
\<close>

theorem further_passes_keep_seed:
  "kernel_metas Potential (trace (FullPRISMCalcThread_run K0 meta_fp world_cold))
     = [meta_fp, meta_fp\<lparr>fpNum := 1\<rparr>, meta_fp\<lparr>fpNum := 2\<rparr>]
   \<and> map randomSeed (kernel_metas Potential (trace (FullPRISMCalcThread_run K0 meta_fp world_cold)))
       = [7, 7, 7]
   \<and> rand_calls (FullPRISMCalcThread_run K0 meta_fp world_cold) = 2
   \<and> map (\<lambda>n. rand_seq world_cold n mod 100000) [0, 1] = [23456, 23457]
   \<and> randomSeed (meta (pars (window (FullPRISMCalcThread_run K0 meta_fp world_cold)))) = 23457"
proof -
  let ?st0 = "start_run K0 meta_fp world_cold"
  let ?st2 = "create_output_file (in_world (emit (Configure meta_fp))
                (in_world (emit (Acquire calculationLock))
                   (in_world (emit (Signal ''Initiating simulation'')) ?st0)))"
  let ?st3 = "close_file (output_stages K0 FullPRISMCalc (potential_stage K0 ?st2))"
  have pre: "preflight ?st0 = Inr ?st0"
    by (simp add: preflight_def testFilenameOutput_def world_cold_def world0_def)
  have run: "FullPRISMCalcThread_run K0 meta_fp world_cold
               = world (finish_run (frozen_phonons K0 FullPRISMCalc ?st3))"
    by (simp add: FullPRISMCalcThread_run_def full_run_def pre run_body_def Let_def)
  have cold: "\<not> potentialIsReady (window (world ?st2))"
    by (simp add: world_cold_def potentialIsReady_def)
  have st2: "kernel_metas Potential (trace (world ?st2)) = []"
    "meta (params ?st2) = meta_fp" "rand_calls (world ?st2) = 0"
    "rand_seq (world ?st2) = rand_seq world_cold"
    by (simp_all add: world_cold_def world0_def)
  have keep: "meta (params (output_stages K0 FullPRISMCalc st)) = meta (params st)"
    "meta (PRISM01_calcPotential K0 p) = meta p" for st p
    by (simp_all add: output_stages_def K0_def)
  have meta3: "meta (params ?st3) = meta_fp"
    using cold by (simp add: keep potential_stage_computed)
  have st3: "this_meta ?st3 = meta_fp"
    "kernel_metas Potential (trace (world ?st3)) = [meta_fp]"
    "rand_calls (world ?st3) = 0" "rand_seq (world ?st3) = rand_seq world_cold"
    using cold st2 by (simp_all add: potential_stage_metas)
  have nfp: "numFP meta_fp = 3"
    by (simp add: meta_fp_def)
  have n: "numFP (meta (params ?st3)) = 3" "1 < numFP (meta (params ?st3))"
    using meta3 nfp by simp_all
  have passes: "map (pass_meta meta_fp) [1..<3] = [meta_fp\<lparr>fpNum := 1\<rparr>, meta_fp\<lparr>fpNum := 2\<rparr>]"
    by (simp add: upt_rec pass_meta_def meta_fp_def meta0_def)
  have metas: "kernel_metas Potential (trace (FullPRISMCalcThread_run K0 meta_fp world_cold))
                 = [meta_fp, meta_fp\<lparr>fpNum := 1\<rparr>, meta_fp\<lparr>fpNum := 2\<rparr>]"
    using frozen_phonons_world(1) [OF n(2), of K0 FullPRISMCalc] passes
    by (simp only: run finish_run_simps st3 n(1) append.simps)
  have calls: "rand_calls (FullPRISMCalcThread_run K0 meta_fp world_cold) = 2"
    using frozen_phonons_world(3) [OF n(2), of K0 FullPRISMCalc]
    by (simp only: run finish_run_simps st3 n(1))
  have seed: "randomSeed (meta (pars (window (FullPRISMCalcThread_run K0 meta_fp world_cold))))
                = 23457"
    using frozen_phonons_world(2) [OF n(2), of K0 FullPRISMCalc]
    by (simp only: run finish_run_simps st3 n(1)) (simp add: world_cold_def world0_def)
  show ?thesis
    using metas calls seed
    by (simp add: meta_fp_def meta0_def world_cold_def world0_def)
qed

section \<open>A run only adds to the record of events\<close>

lemma potential_stage_trace_ext:
  "\<exists>evs. trace (world (potential_stage K st)) = trace (world st) @ evs"
  by (simp add: potential_stage_def)

lemma output_stages_trace_ext:
  "\<exists>evs. trace (world (output_stages K thr st)) = trace (world st) @ evs"
  by (simp add: output_stages_def split: CalcThread.splits)

lemma fp_loop_trace_ext:
  "\<exists>evs. trace (world (run (fp_loop K thr i s))) = trace (world (run s)) @ evs"
proof (induction K thr i s rule: fp_loop.induct)
  case (1 K thr fp_num s)
  show ?case
  proof (cases "fp_num < numFP (meta (params (run s)))")
    case True
    obtain evs where "trace (world (run (fp_loop K thr (Suc fp_num) (fp_body K thr fp_num s))))
                        = trace (world (run (fp_body K thr fp_num s))) @ evs"
      using "1.IH" [OF True] by blast
    then show ?thesis
      using True by (subst fp_loop.simps) (simp add: fp_body_trace)
  next
    case False
    then show ?thesis by (subst fp_loop.simps) simp
  qed
qed

lemma frozen_phonons_trace_ext:
  "\<exists>evs. trace (world (frozen_phonons K thr st)) = trace (world st) @ evs"
proof (cases "1 < numFP (meta (params st))")
  case True
  then show ?thesis
    using fp_loop_trace_ext
            [of K thr 1 "\<lparr>run = st, net_output = output_arr (params st),
                           DPC_CoM_output = (if saveDPC_CoM (meta (params st))
                                             then DPC_CoM (params st) else [])\<rparr>"]
    by (simp add: frozen_phonons_def Let_def)
next
  case False
  then show ?thesis by (simp add: frozen_phonons_def)
qed

lemma finish_run_trace_ext:
  "\<exists>evs. trace (world (finish_run st)) = trace (world st) @ evs"
  by (simp add: finish_run_def Let_def)

text \<open>The first two events of the rest of \<open>run()\<close>: the progress message, then the
  calculation lock.\<close>

lemma run_body_trace:
  "\<exists>evs. trace (world (run_body K thr st))
           = trace (world st) @ [Signal ''Initiating simulation'', Acquire calculationLock] @ evs"
proof -
  let ?st2 = "create_output_file (in_world (emit (Configure (this_meta st)))
                (in_world (emit (Acquire calculationLock))
                   (in_world (emit (Signal ''Initiating simulation'')) st)))"
  let ?st3 = "close_file (output_stages K thr (potential_stage K ?st2))"
  have b: "run_body K thr st = finish_run (frozen_phonons K thr ?st3)"
    by (simp add: run_body_def Let_def)
  obtain e1 where e1: "trace (world (potential_stage K ?st2)) = trace (world ?st2) @ e1"
    using potential_stage_trace_ext by blast
  obtain e2 where e2: "trace (world (output_stages K thr (potential_stage K ?st2)))
                         = trace (world (potential_stage K ?st2)) @ e2"
    using output_stages_trace_ext by blast
  obtain e3 where e3: "trace (world (frozen_phonons K thr ?st3)) = trace (world ?st3) @ e3"
    using frozen_phonons_trace_ext by blast
  obtain e4 where e4: "trace (world (finish_run (frozen_phonons K thr ?st3)))
                         = trace (world (frozen_phonons K thr ?st3)) @ e4"
    using finish_run_trace_ext by blast
  show ?thesis
    unfolding b e4 e3 by (simp add: e2 e1)
qed

section \<open>The pre-flight check\<close>

lemma remove_file_simps [simp]:
  "window (remove_file path w) = window w"
  "trace (remove_file path w) = trace w @ [FileRemove path]"
  "files (remove_file path w) path = (case files w path of Existing bytes \<Rightarrow> Absent | s \<Rightarrow> s)"
  by (simp_all add: remove_file_def)

text \<open>
  C9. In both full-calculation threads the check of the output path comes first, before
  the calculation lock or any other lock of \<open>run()\<close> is taken, and it has three outcomes.
  The first lock operation of a run that proceeds is the acquisition of the calculation
  lock, after the events of the check.
  An inaccessible target ends the run at once: the world is unchanged but for the
  diagnostic, and no lock was taken. A usable target that does not exist lets the run
  proceed unchanged. An existing target raises the overwrite request; if the answer is
  no, the run ends with the world unchanged but for that request (so the file system, and
  with it the existing file's bytes, is as it was, and no lock was taken); if the answer
  is yes, the file is removed and the run proceeds from there.
\<close>

theorem preflight_outcomes:
  "(files w (filenameOutput m) = Inaccessible \<longrightarrow>
      full_run K thr m w
        = emit (Message ''Aborting calculation, please choose an accessible output directory'') w)
 \<and> (files w (filenameOutput m) = Absent \<longrightarrow>
      preflight (start_run K m w) = Inr (start_run K m w)
    \<and> full_run K thr m w = world (run_body K thr (start_run K m w)))
 \<and> ((\<exists>bytes. files w (filenameOutput m) = Existing bytes) \<and> \<not> overwriteFile (window w) \<longrightarrow>
      full_run K thr m w = emit (Signal ''overwriteWarning'') w
    \<and> files (full_run K thr m w) = files w
    \<and> window (full_run K thr m w) = window w)
 \<and> ((\<exists>bytes. files w (filenameOutput m) = Existing bytes) \<and> overwriteFile (window w) \<longrightarrow>
      (\<exists>st. preflight (start_run K m w) = Inr st
          \<and> files (world st) (filenameOutput m) = Absent
          \<and> trace (world st)
              = trace w @ [Signal ''overwriteWarning'', FileRemove (filenameOutput m), Sleep 1]
          \<and> full_run K thr m w = world (run_body K thr st)))
 \<and> (\<forall>st. preflight (start_run K m w) = Inl st \<or> preflight (start_run K m w) = Inr st \<longrightarrow>
      (\<exists>evs. trace (world st) = trace w @ evs \<and> \<not> list_ex is_lock_event evs))
 \<and> (\<forall>st. preflight (start_run K m w) = Inr st \<longrightarrow>
      (\<exists>evs. trace (full_run K thr m w)
               = trace (world st) @ [Signal ''Initiating simulation'', Acquire calculationLock] @ evs))"
proof (intro conjI impI allI)
  assume "files w (filenameOutput m) = Inaccessible"
  then show "full_run K thr m w
        = emit (Message ''Aborting calculation, please choose an accessible output directory'') w"
    by (simp add: full_run_def preflight_def testFilenameOutput_def)
next
  assume a: "files w (filenameOutput m) = Absent"
  then show "preflight (start_run K m w) = Inr (start_run K m w)"
    by (simp add: preflight_def testFilenameOutput_def)
  then show "full_run K thr m w = world (run_body K thr (start_run K m w))"
    by (simp add: full_run_def)
next
  assume a: "(\<exists>bytes. files w (filenameOutput m) = Existing bytes) \<and> \<not> overwriteFile (window w)"
  then show r: "full_run K thr m w = emit (Signal ''overwriteWarning'') w"
    by (auto simp add: full_run_def preflight_def testFilenameOutput_def)
  show "files (full_run K thr m w) = files w" by (simp add: r)
  show "window (full_run K thr m w) = window w" by (simp add: r)
next
  assume a: "(\<exists>bytes. files w (filenameOutput m) = Existing bytes) \<and> overwriteFile (window w)"
  let ?st = "in_window flipOverwrite
               (in_world (emit (Sleep 1))
                  (in_world (remove_file (filenameOutput m))
                     (in_world (emit (Signal ''overwriteWarning'')) (start_run K m w))))"
  have p: "preflight (start_run K m w) = Inr ?st"
    using a by (auto simp add: preflight_def testFilenameOutput_def)
  have "files (world ?st) (filenameOutput m) = Absent"
    using a by auto
  moreover have "trace (world ?st)
      = trace w @ [Signal ''overwriteWarning'', FileRemove (filenameOutput m), Sleep 1]"
    by simp
  moreover have "full_run K thr m w = world (run_body K thr ?st)"
    by (simp add: full_run_def p)
  ultimately show "\<exists>st. preflight (start_run K m w) = Inr st
          \<and> files (world st) (filenameOutput m) = Absent
          \<and> trace (world st)
              = trace w @ [Signal ''overwriteWarning'', FileRemove (filenameOutput m), Sleep 1]
          \<and> full_run K thr m w = world (run_body K thr st)"
    using p by blast
next
  fix st
  assume "preflight (start_run K m w) = Inl st \<or> preflight (start_run K m w) = Inr st"
  then show "\<exists>evs. trace (world st) = trace w @ evs \<and> \<not> list_ex is_lock_event evs"
    by (auto simp add: preflight_def Let_def is_lock_event_def split: if_splits)
next
  fix st
  assume "preflight (start_run K m w) = Inr st"
  then show "\<exists>evs. trace (full_run K thr m w)
               = trace (world st) @ [Signal ''Initiating simulation'', Acquire calculationLock] @ evs"
    using run_body_trace [of K thr st] by (simp add: full_run_def)
qed

theorem preflight_outcomes_witness:
  "files world_inaccessible (filenameOutput meta0) = Inaccessible
   \<and> full_run K0 FullPRISMCalc meta0 world_inaccessible
       = emit (Message ''Aborting calculation, please choose an accessible output directory'')
           world_inaccessible
   \<and> files world0 (filenameOutput meta0) = Absent
   \<and> full_run K0 FullPRISMCalc meta0 world0
       = world (run_body K0 FullPRISMCalc (start_run K0 meta0 world0))
   \<and> files world_existing (filenameOutput meta0) = Existing [80, 75]
   \<and> \<not> overwriteFile (window world_existing)
   \<and> full_run K0 FullMultisliceCalc meta0 world_existing
       = emit (Signal ''overwriteWarning'') world_existing
   \<and> files (full_run K0 FullMultisliceCalc meta0 world_existing) (filenameOutput meta0)
       = Existing [80, 75]
   \<and> files world_accept (filenameOutput meta0) = Existing [80, 75]
   \<and> overwriteFile (window world_accept)
   \<and> (\<exists>st. preflight (start_run K0 meta0 world_accept) = Inr st
          \<and> files (world st) (filenameOutput meta0) = Absent
          \<and> full_run K0 FullPRISMCalc meta0 world_accept
              = world (run_body K0 FullPRISMCalc st))"
proof -
  have a: "files world_inaccessible (filenameOutput meta0) = Inaccessible"
    by (simp add: world_inaccessible_def world0_def)
  have b: "files world0 (filenameOutput meta0) = Absent"
    by (simp add: world0_def)
  have c: "files world_existing (filenameOutput meta0) = Existing [80, 75]"
    "\<not> overwriteFile (window world_existing)"
    by (simp_all add: world_existing_def world0_def window0_def meta0_def overwriteFile_def)
  have d: "files world_accept (filenameOutput meta0) = Existing [80, 75]"
    "overwriteFile (window world_accept)"
    by (simp_all add: world_accept_def world_existing_def meta0_def overwriteFile_def)
  show ?thesis
    using preflight_outcomes [where w = world_inaccessible and m = meta0 and K = K0
            and thr = FullPRISMCalc]
          preflight_outcomes [where w = world0 and m = meta0 and K = K0 and thr = FullPRISMCalc]
          preflight_outcomes [where w = world_existing and m = meta0 and K = K0
            and thr = FullMultisliceCalc]
          preflight_outcomes [where w = world_accept and m = meta0 and K = K0
            and thr = FullPRISMCalc]
          a b c d
    by auto
qed

section \<open>The stage cache\<close>









text \<open>A run only adds kernel invocations, and the pre-flight check adds none.\<close>

lemma kernel_runs_ext:
  assumes "trace w' = trace w @ evs"
  shows "kernel_runs s (trace w) \<le> kernel_runs s (trace w')"
  using assms by simp









section \<open>Properties of the re-striding loops\<close>

lemma restride_row_length [simp]:
  "length (fold (\<lambda>j fb. fb[base + j := f j]) [0..<n] fb) = length fb"
  by (induction n) simp_all

lemma restride_row_nth:
  assumes "k < length fb"
  shows "fold (\<lambda>j fb. fb[base + j := f j]) [0..<n] fb ! k
           = (if base \<le> k \<and> k < base + n then f (k - base) else fb ! k)"
  using assms
proof (induction n)
  case 0
  then show ?case by auto
next
  case (Suc n)
  then show ?case
    by (auto simp add: nth_list_update less_Suc_eq)
qed

text \<open>The outer loop run for its first \<open>m\<close> rows, with the stride \<open>d2\<close> of the source fixed.\<close>

lemma restride_rows_length [simp]:
  "length (fold (\<lambda>i fb. fold (\<lambda>j fb. fb[i * d3 + j := g i j]) [0..<d3] fb) [0..<m] fb)
     = length fb"
  by (induction m) simp_all

lemma restride_rows_nth:
  assumes "k < length fb"
  shows "fold (\<lambda>i fb. fold (\<lambda>j fb. fb[i * d3 + j := g i j]) [0..<d3] fb) [0..<m] fb ! k
           = (if k < m * d3 then g (k div d3) (k mod d3) else fb ! k)"
  using assms
proof (induction m)
  case 0
  then show ?case by simp
next
  case (Suc m)
  let ?prev = "fold (\<lambda>i fb. fold (\<lambda>j fb. fb[i * d3 + j := g i j]) [0..<d3] fb) [0..<m] fb"
  have len: "k < length ?prev" using Suc.prems by simp
  have row: "fold (\<lambda>j fb. fb[m * d3 + j := g m j]) [0..<d3] ?prev ! k
               = (if m * d3 \<le> k \<and> k < m * d3 + d3 then g m (k - m * d3) else ?prev ! k)"
    by (rule restride_row_nth [OF len])
  show ?case
  proof (cases "m * d3 \<le> k \<and> k < m * d3 + d3")
    case True
    then have pos: "0 < d3" by auto
    have "k div d3 = m"
      using True pos by (metis add.commute div_nat_eqI mult.commute mult_Suc)
    moreover have "k mod d3 = k - m * d3"
      using calculation by (metis minus_mult_div_eq_mod mult.commute)
    ultimately show ?thesis using True row by simp
  next
    case False
    then show ?thesis using row Suc.IH [OF Suc.prems] by auto
  qed
qed

lemma restride_nth:
  assumes "k < length fb"
  shows "restride d2 d3 buffer fb ! k
           = (if k < d2 * d3 then Some (buffer ! ((k mod d3) * d2 + k div d3)) else fb ! k)"
  unfolding restride_def
  using restride_rows_nth [OF assms, of d3 "\<lambda>i j. Some (buffer ! (j * d2 + i))" d2]
  by simp

lemma restride_length [simp]:
  "length (restride d2 d3 buffer fb) = length fb"
  unfolding restride_def by simp

lemma restride_fresh:
  assumes "d2 * d3 \<le> n"
  shows "restride d2 d3 buffer (replicate n None)
           = map Some (map (\<lambda>k. buffer ! ((k mod d3) * d2 + k div d3)) [0..<d2 * d3])
             @ replicate (n - d2 * d3) None"
  using assms
  by (intro nth_equalityI) (auto simp add: restride_nth nth_append)

section \<open>Properties of the accumulating write\<close>

lemma add_cells_assigned:
  assumes "length xs \<le> length rb"
  shows "add_cells (map Some xs) rb = Inr (map2 (+) xs rb)"
  using assms
proof (induction xs arbitrary: rb)
  case Nil
  then show ?case by simp
next
  case (Cons x xs)
  then obtain r rb' where rb: "rb = r # rb'" by (cases rb) auto
  then show ?case using Cons by simp
qed

lemma add_cells_unassigned:
  assumes "length xs \<le> length rb"
  shows "add_cells (map Some xs @ None # rest) rb = Inl UninitialisedRead"
  using assms
proof (induction xs arbitrary: rb)
  case Nil
  then show ?case by simp
next
  case (Cons x xs)
  then obtain r rb' where rb: "rb = r # rb'" by (cases rb) auto
  then show ?case using Cons by simp
qed

lemma unassigned_fresh:
  "unassigned (map Some xs @ replicate r None) = r"
  by (simp add: unassigned_def filter_empty_conv)

text \<open>Writing a selection of distinct positions, then looking a position up.\<close>

lemma store_cells_other:
  assumes "c \<notin> set sel"
  shows "store_cells (zip sel vals) f0 c = f0 c"
  using assms
proof (induction sel arbitrary: vals f0)
  case Nil
  then show ?case by simp
next
  case (Cons x sel)
  then show ?case by (cases vals) auto
qed

lemma store_cells_nth:
  assumes "distinct sel" and "length vals = length sel" and "k < length sel"
  shows "store_cells (zip sel vals) f0 (sel ! k) = vals ! k"
  using assms
proof (induction sel arbitrary: vals f0 k)
  case Nil
  then show ?case by simp
next
  case (Cons x sel)
  then obtain v vals' where vals: "vals = v # vals'" by (cases vals) auto
  show ?case
  proof (cases k)
    case 0
    have "store_cells (zip sel vals') (f0(x := v)) x = (f0(x := v)) x"
      by (rule store_cells_other) (use Cons.prems in simp)
    then show ?thesis using 0 vals by simp
  next
    case (Suc k')
    then show ?thesis using Cons vals by simp
  qed
qed

text \<open>The selection of a single scan position: one plane of \<open>d2 * d3\<close> elements.\<close>

lemma hyperslab_plane:
  "hyperslab (o0, o1, o2, o3) (Suc 0, Suc 0, d2, d3)
     = map (\<lambda>n. (o0, o1, o2 + n div d3, o3 + n mod d3)) [0..<d2 * d3]"
proof -
  have "slab_index (o0, o1, o2, o3) (Suc 0, Suc 0, d2, d3) n
          = (o0, o1, o2 + n div d3, o3 + n mod d3)"
    if "n < d2 * d3" for n
  proof -
    have "n div d3 < d2"
      using that by (simp add: less_mult_imp_div_less)
    then show ?thesis using that by simp
  qed
  then show ?thesis by (simp add: hyperslab_def)
qed

lemma hyperslab_plane_distinct:
  "distinct (hyperslab (o0, o1, o2, o3) (Suc 0, Suc 0, d2, d3))"
proof -
  have "inj_on (\<lambda>n. (o0, o1, o2 + n div d3, o3 + n mod d3)) (set [0..<d2 * d3])"
  proof (rule inj_onI)
    fix a b
    assume "(o0, o1, o2 + a div d3, o3 + a mod d3) = (o0, o1, o2 + b div d3, o3 + b mod d3)"
    then have "a div d3 = b div d3" and "a mod d3 = b mod d3" by simp_all
    then show "a = b" by (metis div_mult_mod_eq)
  qed
  then show ?thesis by (simp add: hyperslab_plane distinct_map)
qed

lemma plane_index:
  assumes "i < d2" and "j < (d3::nat)"
  shows "i * d3 + j < d2 * d3" and "(i * d3 + j) div d3 = i" and "(i * d3 + j) mod d3 = j"
proof -
  have "i * d3 + j < i * d3 + d3" using assms(2) by simp
  also have "\<dots> = Suc i * d3" by simp
  also have "\<dots> \<le> d2 * d3" using assms(1) by (intro mult_le_mono1) simp
  finally show "i * d3 + j < d2 * d3" .
  show "(i * d3 + j) div d3 = i" using assms(2) by simp
  show "(i * d3 + j) mod d3 = j" using assms(2) by simp
qed

lemma hyperslab_plane_set:
  "set (hyperslab (o0, o1, o2, o3) (Suc 0, Suc 0, d2, d3))
     = {(o0, o1, o2 + i, o3 + j) | i j. i < d2 \<and> j < d3}"
proof (intro set_eqI iffI)
  fix c
  assume "c \<in> set (hyperslab (o0, o1, o2, o3) (Suc 0, Suc 0, d2, d3))"
  then obtain n where n: "n < d2 * d3" and c: "c = (o0, o1, o2 + n div d3, o3 + n mod d3)"
    by (auto simp add: hyperslab_plane)
  have "n div d3 < d2" using n by (simp add: less_mult_imp_div_less)
  moreover have "n mod d3 < d3" using n by (cases "d3 = 0") simp_all
  ultimately show "c \<in> {(o0, o1, o2 + i, o3 + j) | i j. i < d2 \<and> j < d3}"
    using c by blast
next
  fix c
  assume "c \<in> {(o0, o1, o2 + i, o3 + j) | i j. i < d2 \<and> j < d3}"
  then obtain i j where ij: "i < d2" "j < d3" and c: "c = (o0, o1, o2 + i, o3 + j)" by blast
  have "c = (\<lambda>n. (o0, o1, o2 + n div d3, o3 + n mod d3)) (i * d3 + j)"
    using c plane_index(2,3) [OF ij] by simp
  moreover have "i * d3 + j \<in> set [0..<d2 * d3]"
    using plane_index(1) [OF ij] by simp
  ultimately have "c \<in> (\<lambda>n. (o0, o1, o2 + n div d3, o3 + n mod d3)) ` set [0..<d2 * d3]"
    by (rule image_eqI)
  then show "c \<in> set (hyperslab (o0, o1, o2, o3) (Suc 0, Suc 0, d2, d3))"
    by (simp only: hyperslab_plane set_map)
qed

text \<open>The two ways the call ends once the dataset, the buffer and the selection are in order.\<close>

lemma writeDatacube4D_unfold:
  assumes "datacubes store nameString = Some cube"
    and "in_extent (cube_dims cube) offset (d0, d1, d2, d3)"
    and "total4 (d0, d1, d2, d3) = n"
    and "n \<le> length buffer"
    and "d2 * d3 \<le> n"
  shows "writeDatacube4D store buffer (d0, d1, d2, d3) offset num_FP nameString =
           (case add_cells
                   (restride d2 d3 (map (\<lambda>x. x / num_FP) (take n buffer) @ drop n buffer)
                      (replicate n None))
                   (read_slab cube (hyperslab offset (d0, d1, d2, d3))) of
              Inl e \<Rightarrow> Inl e
            | Inr summed \<Rightarrow>
                Inr (store\<lparr>datacubes := (datacubes store)
                         (nameString := Some (write_slab cube (hyperslab offset (d0, d1, d2, d3))
                                                 summed)),
                       store_log := store_log store @
                         [LockStore, ReadSlab nameString, WriteSlab nameString,
                          Flush nameString, UnlockStore]\<rparr>,
                     map (\<lambda>x. x / num_FP) (take n buffer) @ drop n buffer))"
  using assms
  by (simp add: writeDatacube4D_def Let_def restride_in_bounds_def del: total4.simps)

lemma writeDatacube4D_ok:
  assumes cube: "datacubes store nameString = Some cube"
    and ext: "in_extent (cube_dims cube) offset (d0, d1, d2, d3)"
    and len: "d0 * d1 * d2 * d3 \<le> length buffer"
    and full: "d0 * d1 * d2 * d3 = d2 * d3"
  shows "writeDatacube4D store buffer (d0, d1, d2, d3) offset num_FP nameString =
           Inr (store\<lparr>datacubes := (datacubes store)
                    (nameString := Some (write_slab cube (hyperslab offset (d0, d1, d2, d3))
                       (map2 (+)
                          (map (\<lambda>k. (map (\<lambda>x. x / num_FP) (take (d2 * d3) buffer)
                                       @ drop (d2 * d3) buffer) ! ((k mod d3) * d2 + k div d3))
                               [0..<d2 * d3])
                          (read_slab cube (hyperslab offset (d0, d1, d2, d3)))))),
                  store_log := store_log store @
                    [LockStore, ReadSlab nameString, WriteSlab nameString,
                     Flush nameString, UnlockStore]\<rparr>,
                map (\<lambda>x. x / num_FP) (take (d2 * d3) buffer) @ drop (d2 * d3) buffer)"
proof -
  let ?b1 = "map (\<lambda>x. x / num_FP) (take (d2 * d3) buffer) @ drop (d2 * d3) buffer"
  let ?xs = "map (\<lambda>k. ?b1 ! ((k mod d3) * d2 + k div d3)) [0..<d2 * d3]"
  let ?sel = "hyperslab offset (d0, d1, d2, d3)"
  have n: "total4 (d0, d1, d2, d3) = d2 * d3" using full by simp
  have len': "d2 * d3 \<le> length buffer" using len full by simp
  have fresh: "restride d2 d3 ?b1 (replicate (d2 * d3) None) = map Some ?xs"
    using restride_fresh [of d2 d3 "d2 * d3" ?b1] by simp
  have rd: "length ?xs \<le> length (read_slab cube ?sel)"
    by (simp add: read_slab_def hyperslab_def n del: total4.simps)
  have sum: "add_cells (restride d2 d3 ?b1 (replicate (d2 * d3) None)) (read_slab cube ?sel)
               = Inr (map2 (+) ?xs (read_slab cube ?sel))"
    unfolding fresh by (rule add_cells_assigned [OF rd])
  show ?thesis
    unfolding writeDatacube4D_unfold [OF cube ext n len' order_refl] sum by simp
qed

lemma writeDatacube4D_uninit:
  assumes cube: "datacubes store nameString = Some cube"
    and ext: "in_extent (cube_dims cube) offset (d0, d1, d2, d3)"
    and len: "d0 * d1 * d2 * d3 \<le> length buffer"
    and more: "d2 * d3 < d0 * d1 * d2 * d3"
  shows "writeDatacube4D store buffer (d0, d1, d2, d3) offset num_FP nameString
           = Inl UninitialisedRead"
proof -
  let ?n = "d0 * d1 * d2 * d3"
  let ?b1 = "map (\<lambda>x. x / num_FP) (take ?n buffer) @ drop ?n buffer"
  let ?xs = "map (\<lambda>k. ?b1 ! ((k mod d3) * d2 + k div d3)) [0..<d2 * d3]"
  let ?sel = "hyperslab offset (d0, d1, d2, d3)"
  have n: "total4 (d0, d1, d2, d3) = ?n" by simp
  have le: "d2 * d3 \<le> ?n" using more by (rule less_imp_le)
  obtain r where r: "?n - d2 * d3 = Suc r"
    using more by (metis Suc_diff_Suc)
  have fresh: "restride d2 d3 ?b1 (replicate ?n None) = map Some ?xs @ None # replicate r None"
    unfolding restride_fresh [OF le] r replicate_Suc ..
  have rd: "length ?xs \<le> length (read_slab cube ?sel)"
    using le by (simp add: read_slab_def hyperslab_def n del: total4.simps)
  have sum: "add_cells (restride d2 d3 ?b1 (replicate ?n None)) (read_slab cube ?sel)
               = Inl UninitialisedRead"
    unfolding fresh by (rule add_cells_unassigned [OF rd])
  show ?thesis
    unfolding writeDatacube4D_unfold [OF cube ext n len le] sum by simp
qed

text \<open>
  C4, the claim as stated, at a region of two scan positions (\<open>mdims = (2, 1, 2, 3)\<close>) of a
  dataset of that size, with a buffer of twelve elements: the re-striding loops assign
  the first six cells of \<open>finalBuffer\<close> only, the addition reads the other six unassigned,
  and the content written is not defined.
\<close>

theorem accumulating_write_two_positions:
  "datacubes store0 ''cube'' = Some \<lparr>cube_dims = (2, 1, 2, 3), cube_data = (\<lambda>c. 10)\<rparr>
   \<and> in_extent (2, 1, 2, 3) (0, 0, 0, 0) (2, 1, 2, 3)
   \<and> writeDatacube4D store0 [1, 2, 3, 4, 5, 6, 7, 8, 9, 10, 11, 12] (2, 1, 2, 3) (0, 0, 0, 0) 2
         ''cube'' = Inl UninitialisedRead"
proof -
  have c: "datacubes store0 ''cube'' = Some \<lparr>cube_dims = (2, 1, 2, 3), cube_data = (\<lambda>c. 10)\<rparr>"
    by (simp add: store0_def)
  have e: "in_extent (cube_dims \<lparr>cube_dims = (2, 1, 2, 3), cube_data = (\<lambda>c. 10::real)\<rparr>)
             (0, 0, 0, 0) (2, 1, 2, 3)"
    by simp
  have "writeDatacube4D store0 [1, 2, 3, 4, 5, 6, 7, 8, 9, 10, 11, 12] (2, 1, 2, 3) (0, 0, 0, 0) 2
          ''cube'' = Inl UninitialisedRead"
    by (rule writeDatacube4D_uninit [OF c e]) simp_all
  then show ?thesis using c by simp
qed

text \<open>
  C4, amended. For a call whose region is a single scan position (the two leading extents
  of \<open>mdims\<close> are 1), on an existing dataset that contains the region, with a buffer of at
  least \<open>d2 * d3\<close> elements and a pass count that is not zero: the call succeeds; the
  content written at region position \<open>(i, j)\<close> is the dataset's prior content there plus
  element \<open>j * d2 + i\<close> of the buffer divided by the pass count, that is the buffer
  divided by the pass count with its two trailing axes transposed; the dataset is
  unchanged outside the region and so is every other dataset; the caller's buffer is left
  divided; and the write lock is taken before the read and released after the write and
  the flush.
\<close>

theorem accumulating_write_single_position:
  assumes cube: "datacubes store nameString = Some cube"
    and ext: "in_extent (cube_dims cube) (o0, o1, o2, o3) (1, 1, d2, d3)"
    and len: "d2 * d3 \<le> length buffer"
    and nz: "num_FP \<noteq> 0"
  shows "\<exists>store' cube'.
           writeDatacube4D store buffer (1, 1, d2, d3) (o0, o1, o2, o3) num_FP nameString
             = Inr (store', map (\<lambda>x. x / num_FP) (take (d2 * d3) buffer) @ drop (d2 * d3) buffer)
         \<and> datacubes store' nameString = Some cube'
         \<and> cube_dims cube' = cube_dims cube
         \<and> (\<forall>i<d2. \<forall>j<d3. cube_data cube' (o0, o1, o2 + i, o3 + j)
                 = cube_data cube (o0, o1, o2 + i, o3 + j) + buffer ! (j * d2 + i) / num_FP)
         \<and> (\<forall>c. c \<notin> {(o0, o1, o2 + i, o3 + j) | i j. i < d2 \<and> j < d3}
                 \<longrightarrow> cube_data cube' c = cube_data cube c)
         \<and> (\<forall>other. other \<noteq> nameString \<longrightarrow> datacubes store' other = datacubes store other)
         \<and> store_log store' = store_log store @
              [LockStore, ReadSlab nameString, WriteSlab nameString, Flush nameString,
               UnlockStore]"
proof -
  let ?b1 = "map (\<lambda>x. x / num_FP) (take (d2 * d3) buffer) @ drop (d2 * d3) buffer"
  let ?xs = "map (\<lambda>k. ?b1 ! ((k mod d3) * d2 + k div d3)) [0..<d2 * d3]"
  let ?sel = "hyperslab (o0, o1, o2, o3) (Suc 0, Suc 0, d2, d3)"
  let ?sum = "map2 (+) ?xs (read_slab cube ?sel)"
  let ?cube = "write_slab cube ?sel ?sum"
  let ?store = "store\<lparr>datacubes := (datacubes store)(nameString := Some ?cube),
                  store_log := store_log store @
                    [LockStore, ReadSlab nameString, WriteSlab nameString, Flush nameString,
                     UnlockStore]\<rparr>"
  have ext': "in_extent (cube_dims cube) (o0, o1, o2, o3) (Suc 0, Suc 0, d2, d3)"
    using ext by simp
  have res: "writeDatacube4D store buffer (Suc 0, Suc 0, d2, d3) (o0, o1, o2, o3) num_FP nameString
               = Inr (?store, ?b1)"
    using writeDatacube4D_ok [OF cube ext', of buffer num_FP] len by simp
  have lsel: "length ?sel = d2 * d3" by (simp add: hyperslab_plane)
  have lsum: "length ?sum = length ?sel" by (simp add: read_slab_def lsel)
  have inside: "cube_data ?cube (o0, o1, o2 + i, o3 + j)
                  = cube_data cube (o0, o1, o2 + i, o3 + j) + buffer ! (j * d2 + i) / num_FP"
    if ij: "i < d2" "j < d3" for i j
  proof -
    let ?n = "i * d3 + j"
    have n: "?n < d2 * d3" and dv: "?n div d3 = i" and md: "?n mod d3 = j"
      using plane_index [OF ij] by simp_all
    have pos: "?sel ! ?n = (o0, o1, o2 + i, o3 + j)"
      using n dv md by (simp add: hyperslab_plane)
    have src: "j * d2 + i < d3 * d2"
      using plane_index(1) [OF ij(2) ij(1)] .
    then have src': "j * d2 + i < d2 * d3" by (simp add: mult.commute)
    have b1: "?b1 ! (j * d2 + i) = buffer ! (j * d2 + i) / num_FP"
      using src' len by (simp add: nth_append)
    have "cube_data ?cube (?sel ! ?n) = ?sum ! ?n"
      unfolding write_slab_def
      using store_cells_nth [OF hyperslab_plane_distinct lsum, of ?n "cube_data cube"] n lsel
      by simp
    also have "\<dots> = ?b1 ! (j * d2 + i) + cube_data cube (?sel ! ?n)"
      using n lsel ij by (simp add: read_slab_def)
    finally show ?thesis by (simp add: pos b1)
  qed
  have outside: "cube_data ?cube c = cube_data cube c"
    if "c \<notin> {(o0, o1, o2 + i, o3 + j) | i j. i < d2 \<and> j < d3}" for c
  proof -
    have "c \<notin> set ?sel" using that by (simp only: hyperslab_plane_set not_False_eq_True)
    then show ?thesis by (simp add: write_slab_def store_cells_other)
  qed
  have "writeDatacube4D store buffer (1, 1, d2, d3) (o0, o1, o2, o3) num_FP nameString
          = Inr (?store, ?b1)
      \<and> datacubes ?store nameString = Some ?cube
      \<and> cube_dims ?cube = cube_dims cube
      \<and> (\<forall>i<d2. \<forall>j<d3. cube_data ?cube (o0, o1, o2 + i, o3 + j)
              = cube_data cube (o0, o1, o2 + i, o3 + j) + buffer ! (j * d2 + i) / num_FP)
      \<and> (\<forall>c. c \<notin> {(o0, o1, o2 + i, o3 + j) | i j. i < d2 \<and> j < d3}
              \<longrightarrow> cube_data ?cube c = cube_data cube c)
      \<and> (\<forall>other. other \<noteq> nameString \<longrightarrow> datacubes ?store other = datacubes store other)
      \<and> store_log ?store = store_log store @
           [LockStore, ReadSlab nameString, WriteSlab nameString, Flush nameString, UnlockStore]"
    using res inside outside by (simp add: write_slab_def)
  then show ?thesis by - (rule exI, rule exI, assumption)
qed

theorem accumulating_write_single_position_witness:
  "\<exists>store' cube'.
     writeDatacube4D store0 [2, 4, 6, 8, 10, 12] (1, 1, 2, 3) (1, 0, 0, 0) 2 ''cube''
       = Inr (store', [1, 2, 3, 4, 5, 6])
     \<and> datacubes store' ''cube'' = Some cube'
     \<and> cube_data cube' (1, 0, 0, 1) = 13
     \<and> cube_data cube' (1, 0, 1, 2) = 16
     \<and> cube_data cube' (0, 0, 0, 0) = 10
     \<and> store_log store' = [LockStore, ReadSlab ''cube'', WriteSlab ''cube'', Flush ''cube'',
          UnlockStore]"
proof -
  let ?cube = "\<lparr>cube_dims = (2, 1, 2, 3), cube_data = (\<lambda>c. 10::real)\<rparr>"
  have c: "datacubes store0 ''cube'' = Some ?cube"
    by (simp add: store0_def)
  have e: "in_extent (cube_dims ?cube) (1, 0, 0, 0) (1, 1, 2, 3)"
    by simp
  have l: "2 * 3 \<le> length [2, 4, 6, 8, 10, 12 :: real]"
    by simp
  have z: "(2::real) \<noteq> 0"
    by simp
  show ?thesis
    using accumulating_write_single_position [OF c e l z]
  proof (elim exE conjE)
    fix store' cube'
    assume r: "writeDatacube4D store0 [2, 4, 6, 8, 10, 12] (1, 1, 2, 3) (1, 0, 0, 0) 2 ''cube''
                 = Inr (store', map (\<lambda>x. x / 2) (take (2 * 3) [2, 4, 6, 8, 10, 12])
                                @ drop (2 * 3) [2, 4, 6, 8, 10, 12])"
      and d: "datacubes store' ''cube'' = Some cube'"
      and inside: "\<forall>i<2. \<forall>j<3. cube_data cube' (1, 0, 0 + i, 0 + j)
                     = cube_data ?cube (1, 0, 0 + i, 0 + j)
                       + [2, 4, 6, 8, 10, 12] ! (j * 2 + i) / 2"
      and outside: "\<forall>c. c \<notin> {(1, 0, 0 + i, 0 + j) | i j. i < 2 \<and> j < (3::nat)}
                     \<longrightarrow> cube_data cube' c = cube_data ?cube c"
      and lg: "store_log store' = store_log store0 @
                 [LockStore, ReadSlab ''cube'', WriteSlab ''cube'', Flush ''cube'', UnlockStore]"
    have a: "cube_data cube' (1, 0, 0, 1) = 13"
      using inside [rule_format, of 0 1] by simp
    have b: "cube_data cube' (1, 0, 1, 2) = 16"
      using inside [rule_format, of 1 2] by (simp add: numeral_2_eq_2)
    have o: "cube_data cube' (0, 0, 0, 0) = 10"
      using outside [rule_format, of "(0, 0, 0, 0)"] by simp
    have "writeDatacube4D store0 [2, 4, 6, 8, 10, 12] (1, 1, 2, 3) (1, 0, 0, 0) 2 ''cube''
            = Inr (store', [1, 2, 3, 4, 5, 6])
        \<and> datacubes store' ''cube'' = Some cube'
        \<and> cube_data cube' (1, 0, 0, 1) = 13
        \<and> cube_data cube' (1, 0, 1, 2) = 16
        \<and> cube_data cube' (0, 0, 0, 0) = 10
        \<and> store_log store' = [LockStore, ReadSlab ''cube'', WriteSlab ''cube'', Flush ''cube'',
             UnlockStore]"
      using r d a b o lg by (simp add: store0_def)
    then show ?thesis by - (rule exI, rule exI, assumption)
  qed
qed

text \<open>
  C10. For a region with leading extents of at least 1, on an existing dataset that
  contains it, and a buffer that holds the region: of the \<open>d0 * d1 * d2 * d3\<close> cells of the
  freshly allocated \<open>finalBuffer\<close> the re-striding loops assign exactly the first
  \<open>d2 * d3\<close> (one plane of the trailing axes), so \<open>d0 * d1 * d2 * d3 - d2 * d3\<close> cells are
  unassigned when the addition reads them. With both leading extents 1 no unassigned
  cell is read and the call succeeds. In general the call reads an unassigned cell exactly
  when the region holds more than one plane; for a region whose plane is not empty that
  is exactly when the leading extents are not both 1.
\<close>

theorem restride_assigns_one_plane:
  assumes cube: "datacubes store nameString = Some cube"
    and ext: "in_extent (cube_dims cube) offset (d0, d1, d2, d3)"
    and len: "d0 * d1 * d2 * d3 \<le> length buffer"
    and lead: "1 \<le> d0" "1 \<le> d1"
  shows "(\<forall>k<d0 * d1 * d2 * d3.
            (restride d2 d3 b (replicate (d0 * d1 * d2 * d3) None) ! k = None) = (d2 * d3 \<le> k))
       \<and> unassigned (restride d2 d3 b (replicate (d0 * d1 * d2 * d3) None))
           = d0 * d1 * d2 * d3 - d2 * d3
       \<and> (d0 = 1 \<and> d1 = 1 \<longrightarrow>
            (\<exists>r. writeDatacube4D store buffer (d0, d1, d2, d3) offset num_FP nameString = Inr r))
       \<and> ((writeDatacube4D store buffer (d0, d1, d2, d3) offset num_FP nameString
              = Inl UninitialisedRead) = (d2 * d3 < d0 * d1 * d2 * d3))
       \<and> (0 < d2 * d3 \<longrightarrow>
            (writeDatacube4D store buffer (d0, d1, d2, d3) offset num_FP nameString
               = Inl UninitialisedRead) = (\<not> (d0 = 1 \<and> d1 = 1)))"
proof -
  let ?n = "d0 * d1 * d2 * d3"
  let ?call = "writeDatacube4D store buffer (d0, d1, d2, d3) offset num_FP nameString"
  have "1 * (d2 * d3) \<le> (d0 * d1) * (d2 * d3)"
    using lead by (intro mult_le_mono1) (simp add: Suc_le_eq)
  then have le: "d2 * d3 \<le> ?n" by (simp add: mult.assoc)
  have cells: "\<forall>k<?n. (restride d2 d3 b (replicate ?n None) ! k = None) = (d2 * d3 \<le> k)"
    by (auto simp add: restride_nth)
  have count: "unassigned (restride d2 d3 b (replicate ?n None)) = ?n - d2 * d3"
    unfolding restride_fresh [OF le] by (rule unassigned_fresh)
  have iff: "(?call = Inl UninitialisedRead) = (d2 * d3 < ?n)"
  proof (cases "d2 * d3 < ?n")
    case True
    then show ?thesis using writeDatacube4D_uninit [OF cube ext len] by simp
  next
    case False
    then have full: "?n = d2 * d3" using le by (metis le_antisym not_less)
    have "\<exists>r. ?call = Inr r"
      by (rule exI, rule writeDatacube4D_ok [OF cube ext len full])
    then obtain r where "?call = Inr r" ..
    then have "?call \<noteq> Inl UninitialisedRead" by simp
    then show ?thesis using False by (simp only: False simp_thms)
  qed
  have single: "\<exists>r. ?call = Inr r" if "d0 = 1 \<and> d1 = 1"
  proof -
    have full: "?n = d2 * d3" using that by simp
    show ?thesis
      by (rule exI, rule writeDatacube4D_ok [OF cube ext len full])
  qed
  have planes: "(d2 * d3 < ?n) = (\<not> (d0 = 1 \<and> d1 = 1))" if "0 < d2 * d3"
  proof -
    have "(d2 * d3 < ?n) = (1 * (d2 * d3) < (d0 * d1) * (d2 * d3))"
      by (simp add: mult.assoc)
    also have "\<dots> = (1 < d0 * d1)"
      using that by (simp only: mult_less_cancel2) simp
    also have "\<dots> = (d0 * d1 \<noteq> 1)"
    proof -
      have "0 < d0 * d1" using lead by simp
      then show ?thesis by linarith
    qed
    also have "\<dots> = (\<not> (d0 = 1 \<and> d1 = 1))"
      by simp
    finally show ?thesis .
  qed
  have nonempty: "(?call = Inl UninitialisedRead) = (\<not> (d0 = 1 \<and> d1 = 1))" if "0 < d2 * d3"
    using iff planes [OF that] by (rule trans)
  show ?thesis
  proof (intro conjI impI)
    show "\<forall>k<?n. (restride d2 d3 b (replicate ?n None) ! k = None) = (d2 * d3 \<le> k)"
      by (rule cells)
    show "unassigned (restride d2 d3 b (replicate ?n None)) = ?n - d2 * d3"
      by (rule count)
    show "\<exists>r. ?call = Inr r" if "d0 = 1 \<and> d1 = 1"
      by (rule single [OF that])
    show "(?call = Inl UninitialisedRead) = (d2 * d3 < ?n)"
      by (rule iff)
    show "(?call = Inl UninitialisedRead) = (\<not> (d0 = 1 \<and> d1 = 1))" if "0 < d2 * d3"
      by (rule nonempty [OF that])
  qed
qed

theorem restride_assigns_one_plane_witness:
  "unassigned (restride 2 3 [1, 2, 3, 4, 5, 6, 7, 8, 9, 10, 11, 12] (replicate (2 * 1 * 2 * 3) None))
     = 6
   \<and> writeDatacube4D store0 [1, 2, 3, 4, 5, 6, 7, 8, 9, 10, 11, 12] (2, 1, 2, 3) (0, 0, 0, 0) 2
        ''cube'' = Inl UninitialisedRead
   \<and> (\<exists>r. writeDatacube4D store0 [2, 4, 6, 8, 10, 12] (1, 1, 2, 3) (1, 0, 0, 0) 2 ''cube''
            = Inr r)"
proof -
  let ?cube = "\<lparr>cube_dims = (2, 1, 2, 3), cube_data = (\<lambda>c. 10::real)\<rparr>"
  have c: "datacubes store0 ''cube'' = Some ?cube"
    by (simp add: store0_def)
  have e2: "in_extent (cube_dims ?cube) (0, 0, 0, 0) (2, 1, 2, 3)"
    and e1: "in_extent (cube_dims ?cube) (1, 0, 0, 0) (1, 1, 2, 3)"
    by simp_all
  have l2: "2 * 1 * 2 * 3 \<le> length [1, 2, 3, 4, 5, 6, 7, 8, 9, 10, 11, 12 :: real]"
    and l1: "1 * 1 * 2 * 3 \<le> length [2, 4, 6, 8, 10, 12 :: real]"
    by simp_all
  have two: "(1::nat) \<le> 2" and one: "(1::nat) \<le> 1"
    by simp_all
  note t2 = restride_assigns_one_plane [OF c e2 l2 two one,
              where b = "[1, 2, 3, 4, 5, 6, 7, 8, 9, 10, 11, 12]" and num_FP = 2]
  note t1 = restride_assigns_one_plane [OF c e1 l1 one one,
              where b = "[2, 4, 6, 8, 10, 12]" and num_FP = 2]
  have a: "unassigned (restride 2 3 [1, 2, 3, 4, 5, 6, 7, 8, 9, 10, 11, 12]
                         (replicate (2 * 1 * 2 * 3) None)) = 2 * 1 * 2 * 3 - 2 * 3"
    using t2 by (elim conjE)
  have b: "(writeDatacube4D store0 [1, 2, 3, 4, 5, 6, 7, 8, 9, 10, 11, 12] (2, 1, 2, 3)
              (0, 0, 0, 0) 2 ''cube'' = Inl UninitialisedRead) = (2 * 3 < 2 * 1 * 2 * (3::nat))"
    using t2 by (elim conjE)
  have s: "(1::nat) = 1 \<and> (1::nat) = 1 \<longrightarrow>
             (\<exists>r. writeDatacube4D store0 [2, 4, 6, 8, 10, 12] (1, 1, 2, 3) (1, 0, 0, 0) 2 ''cube''
                    = Inr r)"
    using t1 by (elim conjE)
  show ?thesis
    using a b s by simp
qed

section \<open>Properties of the stitcher\<close>

lemma max_row_length [simp]:
  "length (fold (\<lambda>j md. md[j := f j (md ! j)]) [0..<n] md) = length md"
  by (induction n) simp_all

lemma max_row_fold_nth:
  assumes "k < length md"
  shows "fold (\<lambda>j md. md[j := f j (md ! j)]) [0..<n] md ! k
           = (if k < n then f k (md ! k) else md ! k)"
  using assms
proof (induction n)
  case 0
  then show ?case by simp
next
  case (Suc n)
  then show ?case by (auto simp add: nth_list_update less_Suc_eq)
qed

lemma max_row_len [simp]:
  "length (max_row n row md) = length md"
  unfolding max_row_def
  by (rule max_row_length [of "\<lambda>j x. if x < row ! j then row ! j else x"])

lemma max_row_eq:
  assumes "length md = n"
  shows "max_row n row md = map (\<lambda>j. max (md ! j) (row ! j)) [0..<n]"
proof (rule nth_equalityI)
  show "length (max_row n row md) = length (map (\<lambda>j. max (md ! j) (row ! j)) [0..<n])"
    using assms by simp
next
  fix k
  assume "k < length (max_row n row md)"
  then have k: "k < n" using assms by simp
  then have "max_row n row md ! k = (if md ! k < row ! k then row ! k else md ! k)"
    unfolding max_row_def
    using max_row_fold_nth [of k md "\<lambda>j x. if x < row ! j then row ! j else x" n] assms
    by simp
  then show "max_row n row md ! k = map (\<lambda>j. max (md ! j) (row ! j)) [0..<n] ! k"
    using k by (simp add: max_def)
qed

lemma Max_insert_max:
  assumes "finite A"
  shows "Max (insert (max a b) A) = Max (insert (a::nat) (insert b A))"
proof (cases "A = {}")
  case True
  then show ?thesis by (simp add: max.commute)
next
  case False
  then show ?thesis using assms by (simp add: max.assoc)
qed

lemma fold_max_row:
  assumes "length md = n"
  shows "fold (max_row n) rows md
           = map (\<lambda>j. Max (insert (md ! j) ((\<lambda>row. row ! j) ` set rows))) [0..<n]"
  using assms
proof (induction rows arbitrary: md)
  case Nil
  then show ?case using map_nth [of md] by simp
next
  case (Cons row rows)
  let ?md = "max_row n row md"
  have len: "length ?md = n" using Cons.prems by (simp add: max_row_eq)
  have "fold (max_row n) rows ?md
          = map (\<lambda>j. Max (insert (?md ! j) ((\<lambda>row. row ! j) ` set rows))) [0..<n]"
    by (rule Cons.IH [OF len])
  also have "\<dots> = map (\<lambda>j. Max (insert (md ! j) ((\<lambda>r. r ! j) ` set (row # rows)))) [0..<n]"
  proof (rule map_cong [OF refl])
    fix j
    assume "j \<in> set [0..<n]"
    then have "?md ! j = max (md ! j) (row ! j)"
      using Cons.prems by (simp add: max_row_eq)
    then show "Max (insert (?md ! j) ((\<lambda>row. row ! j) ` set rows))
                 = Max (insert (md ! j) ((\<lambda>r. r ! j) ` set (row # rows)))"
      by (simp add: Max_insert_max)
  qed
  finally show ?case by simp
qed

lemma max_dims_of_eq:
  assumes "indices \<noteq> []"
  shows "max_dims_of n indices = map (\<lambda>j. Max ((\<lambda>row. row ! j) ` set indices)) [0..<n]"
proof -
  have "max_dims_of n indices
          = map (\<lambda>j. Max (insert (replicate n 0 ! j) ((\<lambda>row. row ! j) ` set indices))) [0..<n]"
    unfolding max_dims_of_def by (rule fold_max_row) simp
  also have "\<dots> = map (\<lambda>j. Max ((\<lambda>row. row ! j) ` set indices)) [0..<n]"
  proof (rule map_cong [OF refl])
    fix j
    assume "j \<in> set [0..<n]"
    then have z: "replicate n (0::nat) ! j = 0" by simp
    have ne: "(\<lambda>row. row ! j) ` set indices \<noteq> {}" using assms by simp
    show "Max (insert (replicate n 0 ! j) ((\<lambda>row. row ! j) ` set indices))
            = Max ((\<lambda>row. row ! j) ` set indices)"
      unfolding z using ne by (simp add: max_def)
  qed
  finally show ?thesis .
qed

text \<open>The list of mappings, source by source.\<close>

lemma source_mappings_eq:
  assumes "length indices = length datasets" and "\<forall>row\<in>set indices. length row = m"
  shows "map (\<lambda>i. source_mapping e m (datasets ! i) (indices ! i)) [0..<length datasets]
           = map2 (\<lambda>ds row. \<lparr>vm_start = replicate (length e) 0 @ row,
                                vm_count = e @ replicate m 1,
                                vm_file = ds_file ds, vm_path = ds_path ds,
                                vm_src_dims = ds_dims ds\<rparr>) datasets indices"
  using assms by (intro nth_equalityI) (simp_all add: source_mapping_def)

text \<open>
  What the stitcher returns for a non-empty list of sources with one index tuple of
  length \<open>m\<close> per source: a failure only when the storage library refuses a mapping or the
  name is taken. The shape of the result and of every mapping comes from the first
  source; the extents of the other sources are passed to the library and not compared.
\<close>

lemma writeVirtualDataSet_eq:
  assumes ne: "datasets \<noteq> []"
    and len: "length indices = length datasets"
    and rows: "\<forall>row\<in>set indices. length row = m"
  shows "writeVirtualDataSet accept hfile grp dsetName datasets indices =
           (if \<exists>ds\<in>set datasets. \<not> accept (ds_dims (datasets ! 0) @ replicate m 1) (ds_dims ds)
            then Inl BackendRejected
            else if hfile (grp @ ''/'' @ dsetName) \<noteq> None then Inl NameExists
            else Inr (hfile(grp @ ''/'' @ dsetName \<mapsto> Virtual
                   \<lparr>vds_dims = ds_dims (datasets ! 0)
                                 @ map (\<lambda>j. 1 + Max ((\<lambda>row. row ! j) ` set indices)) [0..<m],
                    vds_maps = map2 (\<lambda>ds row. \<lparr>vm_start = replicate (length (ds_dims (datasets ! 0))) 0 @ row,
                                                  vm_count = ds_dims (datasets ! 0) @ replicate m 1,
                                                  vm_file = ds_file ds, vm_path = ds_path ds,
                                                  vm_src_dims = ds_dims ds\<rparr>) datasets indices\<rparr>)))"
proof -
  let ?e = "ds_dims (datasets ! 0)"
  let ?maps = "map2 (\<lambda>ds row. \<lparr>vm_start = replicate (length ?e) 0 @ row,
                                 vm_count = ?e @ replicate m 1,
                                 vm_file = ds_file ds, vm_path = ds_path ds,
                                 vm_src_dims = ds_dims ds\<rparr>) datasets indices"
  have ine: "indices \<noteq> []" using ne len by auto
  then have rank: "length (indices ! 0) = m" using rows by (cases indices) auto
  have short: "\<not> (\<exists>row\<in>set indices. length row < m)" using rows by auto
  have maps: "map (\<lambda>i. source_mapping ?e m (datasets ! i) (indices ! i)) [0..<length datasets]
                = ?maps"
    by (rule source_mappings_eq [OF len rows])
  have refused: "(\<exists>vm\<in>set ?maps. \<not> accept (vm_count vm) (vm_src_dims vm))
                   = (\<exists>ds\<in>set datasets. \<not> accept (?e @ replicate m 1) (ds_dims ds))"
  proof -
    have "(\<exists>vm\<in>set ?maps. \<not> accept (vm_count vm) (vm_src_dims vm))
            = (\<exists>p\<in>set (zip datasets indices). \<not> accept (?e @ replicate m 1) (ds_dims (fst p)))"
      by (simp add: split_def)
    also have "\<dots> = (\<exists>ds\<in>set (map fst (zip datasets indices)).
                          \<not> accept (?e @ replicate m 1) (ds_dims ds))"
      by (simp del: map_fst_zip)
    also have "map fst (zip datasets indices) = datasets"
      using len by simp
    finally show ?thesis .
  qed
  show ?thesis
    unfolding writeVirtualDataSet_def Let_def rank maps refused max_dims_of_eq [OF ine]
    using ine short ne len by (simp add: comp_def)
qed

text \<open>
  C7. For a stitch over a non-empty list of source datasets of common extents \<open>e\<close> (so of
  common rank), with one index tuple over \<open>m\<close> new axes per source, a free name for the
  result, and a storage library that takes a source of extents \<open>e\<close> for a selection of
  count \<open>e\<close> followed by \<open>m\<close> ones: the stitcher creates a virtual dataset of rank
  \<open>length e + m\<close>, whose extents are \<open>e\<close> along the original axes and, along new axis \<open>j\<close>,
  one plus the largest index any tuple has at \<open>j\<close>; source \<open>i\<close> is mapped, whole, onto the
  hyperslab that starts at zero along the original axes and at the source's index tuple
  along the new ones, with count \<open>e\<close> along the original axes and one along the new ones.
\<close>

theorem stitch_extents:
  assumes ne: "datasets \<noteq> []"
    and len: "length indices = length datasets"
    and rows: "\<forall>row\<in>set indices. length row = m"
    and common: "\<forall>ds\<in>set datasets. ds_dims ds = e"
    and acc: "accept (e @ replicate m 1) e"
    and fresh: "hfile (grp @ ''/'' @ dsetName) = None"
  shows "writeVirtualDataSet accept hfile grp dsetName datasets indices =
           Inr (hfile(grp @ ''/'' @ dsetName \<mapsto> Virtual
                  \<lparr>vds_dims = e @ map (\<lambda>j. 1 + Max ((\<lambda>row. row ! j) ` set indices)) [0..<m],
                   vds_maps = map2 (\<lambda>ds row. \<lparr>vm_start = replicate (length e) 0 @ row,
                                                 vm_count = e @ replicate m 1,
                                                 vm_file = ds_file ds, vm_path = ds_path ds,
                                                 vm_src_dims = e\<rparr>) datasets indices\<rparr>))
       \<and> length (e @ map (\<lambda>j. 1 + Max ((\<lambda>row. row ! j) ` set indices)) [0..<m])
           = length e + m"
proof -
  have first: "ds_dims (datasets ! 0) = e"
    using ne common by (cases datasets) auto
  have ok: "\<not> (\<exists>ds\<in>set datasets. \<not> accept (e @ replicate m 1) (ds_dims ds))"
    using common acc by auto
  have maps: "map2 (\<lambda>ds row. \<lparr>vm_start = replicate (length e) 0 @ row,
                                vm_count = e @ replicate m 1,
                                vm_file = ds_file ds, vm_path = ds_path ds,
                                vm_src_dims = ds_dims ds\<rparr>) datasets indices
              = map2 (\<lambda>ds row. \<lparr>vm_start = replicate (length e) 0 @ row,
                                vm_count = e @ replicate m 1,
                                vm_file = ds_file ds, vm_path = ds_path ds,
                                vm_src_dims = e\<rparr>) datasets indices"
    using common by (intro map_cong [OF refl]) (auto dest: set_zip_leftD)
  show ?thesis
    unfolding writeVirtualDataSet_eq [OF ne len rows] first maps
    using ok fresh by simp
qed

theorem stitch_extents_witness:
  "writeVirtualDataSet same_element_count file0 ''/supergroups/vd_depth_series'' ''supergroup''
     [src_a, src_b] (depth_series_indices 2)
   = Inr (file0(''/supergroups/vd_depth_series/supergroup'' \<mapsto> Virtual
       \<lparr>vds_dims = [2, 3, 2],
        vds_maps = [\<lparr>vm_start = [0, 0, 0], vm_count = [2, 3, 1], vm_file = ''out.h5'',
                     vm_path = ''/realslices/vd0000/realslice'', vm_src_dims = [2, 3]\<rparr>,
                    \<lparr>vm_start = [0, 0, 1], vm_count = [2, 3, 1], vm_file = ''out.h5'',
                     vm_path = ''/realslices/vd0001/realslice'', vm_src_dims = [2, 3]\<rparr>]\<rparr>))"
proof -
  have idx: "depth_series_indices 2 = [[0], [1]]"
    by (simp add: depth_series_indices_def upt_rec numeral_2_eq_2)
  have ne: "[src_a, src_b] \<noteq> []" by simp
  have len: "length [[0], [1::nat]] = length [src_a, src_b]" by simp
  have rows: "\<forall>row\<in>set [[0], [1::nat]]. length row = 1" by simp
  have common: "\<forall>ds\<in>set [src_a, src_b]. ds_dims ds = [2, 3]"
    by (simp add: src_a_def src_b_def)
  have acc: "same_element_count ([2, 3] @ replicate 1 1) [2, 3]"
    by (simp add: same_element_count_def)
  have fresh: "file0 (''/supergroups/vd_depth_series'' @ ''/'' @ ''supergroup'') = None"
    by (simp add: file0_def src_a_def src_b_def)
  have mx: "Max ((\<lambda>row. row ! 0) ` set [[0], [1::nat]]) = 1"
    by simp
  have "writeVirtualDataSet same_element_count file0 ''/supergroups/vd_depth_series''
          ''supergroup'' [src_a, src_b] [[0], [1]]
        = Inr (file0(''/supergroups/vd_depth_series/supergroup'' \<mapsto> Virtual
            \<lparr>vds_dims = [2, 3, 2],
             vds_maps = [\<lparr>vm_start = [0, 0, 0], vm_count = [2, 3, 1], vm_file = ''out.h5'',
                          vm_path = ''/realslices/vd0000/realslice'', vm_src_dims = [2, 3]\<rparr>,
                         \<lparr>vm_start = [0, 0, 1], vm_count = [2, 3, 1], vm_file = ''out.h5'',
                          vm_path = ''/realslices/vd0001/realslice'', vm_src_dims = [2, 3]\<rparr>]\<rparr>))"
    using stitch_extents [where accept = same_element_count and hfile = file0
            and grp = "''/supergroups/vd_depth_series''" and dsetName = "''supergroup''",
            OF ne len rows common acc fresh]
    by (simp add: mx src_a_def src_b_def numeral_2_eq_2)
  then show ?thesis unfolding idx .
qed

text \<open>
  C8, the claim as stated, at two sources of extents 2 x 3 and 3 x 2, with a storage
  library that refuses a mapping only when the numbers of elements differ: the stitch
  raises no failure; it returns the virtual dataset shaped like the first source, onto
  which the second source is mapped as well.
\<close>

theorem stitch_accepts_mismatch:
  "ds_dims src_a = [2, 3] \<and> ds_dims src_c = [3, 2]
   \<and> writeVirtualDataSet same_element_count file1 ''/supergroups/vd_depth_series'' ''supergroup''
        [src_a, src_c] [[0], [1]]
      = Inr (file1(''/supergroups/vd_depth_series/supergroup'' \<mapsto> Virtual
          \<lparr>vds_dims = [2, 3, 2],
           vds_maps = [\<lparr>vm_start = [0, 0, 0], vm_count = [2, 3, 1], vm_file = ''out.h5'',
                        vm_path = ''/realslices/vd0000/realslice'', vm_src_dims = [2, 3]\<rparr>,
                       \<lparr>vm_start = [0, 0, 1], vm_count = [2, 3, 1], vm_file = ''out.h5'',
                        vm_path = ''/realslices/vd0001/realslice'', vm_src_dims = [3, 2]\<rparr>]\<rparr>))"
proof -
  have ne: "[src_a, src_c] \<noteq> []" by simp
  have len: "length [[0], [1::nat]] = length [src_a, src_c]" by simp
  have rows: "\<forall>row\<in>set [[0], [1::nat]]. length row = 1" by simp
  have fresh: "file1 (''/supergroups/vd_depth_series'' @ ''/'' @ ''supergroup'') = None"
    by (simp add: file1_def src_a_def src_c_def)
  have mx: "Max ((\<lambda>row. row ! 0) ` set [[0], [1::nat]]) = 1"
    by simp
  show ?thesis
    unfolding writeVirtualDataSet_eq [OF ne len rows]
    using fresh by (simp add: mx src_a_def src_c_def same_element_count_def numeral_2_eq_2)
qed

text \<open>
  C8, amended. The stitcher compares no ranks and no extents and has no schema-mismatch
  failure. For a non-empty list of sources with one index tuple over \<open>m\<close> new axes per
  source and a free name for the result, the outcome is decided by the storage library
  alone: if it takes every source for a selection whose count is the extents of the first
  source followed by \<open>m\<close> ones, the stitch succeeds, whatever the ranks and extents of the
  other sources; if it refuses one, the stitch fails with the library's failure. A stitch
  that succeeds adds the virtual dataset and leaves every other dataset of the file as it
  was; a stitch that fails returns no changed file.
\<close>

theorem stitch_compares_no_shapes:
  assumes ne: "datasets \<noteq> []"
    and len: "length indices = length datasets"
    and rows: "\<forall>row\<in>set indices. length row = m"
    and fresh: "hfile (grp @ ''/'' @ dsetName) = None"
  shows "((\<forall>ds\<in>set datasets. accept (ds_dims (datasets ! 0) @ replicate m 1) (ds_dims ds)) \<longrightarrow>
            (\<exists>vds. writeVirtualDataSet accept hfile grp dsetName datasets indices
                     = Inr (hfile(grp @ ''/'' @ dsetName \<mapsto> Virtual vds))
                 \<and> take (length (ds_dims (datasets ! 0))) (vds_dims vds) = ds_dims (datasets ! 0)
                 \<and> map vm_src_dims (vds_maps vds) = map ds_dims datasets))
       \<and> (\<not> (\<forall>ds\<in>set datasets. accept (ds_dims (datasets ! 0) @ replicate m 1) (ds_dims ds)) \<longrightarrow>
            writeVirtualDataSet accept hfile grp dsetName datasets indices = Inl BackendRejected)
       \<and> (\<forall>hfile'. writeVirtualDataSet accept hfile grp dsetName datasets indices = Inr hfile' \<longrightarrow>
            (\<forall>path. path \<noteq> grp @ ''/'' @ dsetName \<longrightarrow> hfile' path = hfile path))"
proof (intro conjI impI allI)
  assume all: "\<forall>ds\<in>set datasets. accept (ds_dims (datasets ! 0) @ replicate m 1) (ds_dims ds)"
  let ?e = "ds_dims (datasets ! 0)"
  let ?vds = "\<lparr>vds_dims = ?e @ map (\<lambda>j. 1 + Max ((\<lambda>row. row ! j) ` set indices)) [0..<m],
               vds_maps = map2 (\<lambda>ds row. \<lparr>vm_start = replicate (length ?e) 0 @ row,
                                             vm_count = ?e @ replicate m 1,
                                             vm_file = ds_file ds, vm_path = ds_path ds,
                                             vm_src_dims = ds_dims ds\<rparr>) datasets indices\<rparr>"
  have r: "writeVirtualDataSet accept hfile grp dsetName datasets indices
             = Inr (hfile(grp @ ''/'' @ dsetName \<mapsto> Virtual ?vds))"
    unfolding writeVirtualDataSet_eq [OF ne len rows] using all fresh by simp
  have srcs: "map vm_src_dims (vds_maps ?vds) = map ds_dims datasets"
    using len by (intro nth_equalityI) simp_all
  have "writeVirtualDataSet accept hfile grp dsetName datasets indices
             = Inr (hfile(grp @ ''/'' @ dsetName \<mapsto> Virtual ?vds))
      \<and> take (length ?e) (vds_dims ?vds) = ?e
      \<and> map vm_src_dims (vds_maps ?vds) = map ds_dims datasets"
    using r srcs by simp
  then show "\<exists>vds. writeVirtualDataSet accept hfile grp dsetName datasets indices
                     = Inr (hfile(grp @ ''/'' @ dsetName \<mapsto> Virtual vds))
                 \<and> take (length ?e) (vds_dims vds) = ?e
                 \<and> map vm_src_dims (vds_maps vds) = map ds_dims datasets"
    by - (rule exI, assumption)
next
  assume "\<not> (\<forall>ds\<in>set datasets. accept (ds_dims (datasets ! 0) @ replicate m 1) (ds_dims ds))"
  then show "writeVirtualDataSet accept hfile grp dsetName datasets indices = Inl BackendRejected"
    unfolding writeVirtualDataSet_eq [OF ne len rows] by simp
next
  fix hfile' path
  assume "writeVirtualDataSet accept hfile grp dsetName datasets indices = Inr hfile'"
    and "path \<noteq> grp @ ''/'' @ dsetName"
  then show "hfile' path = hfile path"
    unfolding writeVirtualDataSet_eq [OF ne len rows]
    by (auto split: if_splits)
qed


theorem stitch_compares_no_shapes_witness:
  "ds_dims src_a = [2, 3] \<and> ds_dims src_c = [3, 2]
   \<and> (\<exists>vds hfile'.
         writeVirtualDataSet same_element_count file1 ''/supergroups/vd_depth_series''
           ''supergroup'' [src_a, src_c] [[0], [1]] = Inr hfile'
       \<and> hfile' = file1(''/supergroups/vd_depth_series'' @ ''/'' @ ''supergroup'' \<mapsto> Virtual vds)
       \<and> map vm_src_dims (vds_maps vds) = [[2, 3], [3, 2]]
       \<and> hfile' (ds_path src_a) = Some (Plain src_a)
       \<and> hfile' (ds_path src_c) = Some (Plain src_c))
   \<and> writeVirtualDataSet (\<lambda>count src_dims. count = src_dims @ [1]) file1
         ''/supergroups/vd_depth_series'' ''supergroup'' [src_a, src_c] [[0], [1]]
       = Inl BackendRejected"
proof -
  have ne: "[src_a, src_c] \<noteq> []" by simp
  have len: "length [[0], [1::nat]] = length [src_a, src_c]" by simp
  have rows: "\<forall>row\<in>set [[0], [1::nat]]. length row = 1" by simp
  have fresh: "file1 (''/supergroups/vd_depth_series'' @ ''/'' @ ''supergroup'') = None"
    by (simp add: file1_def src_a_def src_c_def)
  have dims: "ds_dims src_a = [2, 3]" "ds_dims src_c = [3, 2]"
    by (simp_all add: src_a_def src_c_def)
  note t = stitch_compares_no_shapes [where accept = same_element_count and hfile = file1
             and grp = "''/supergroups/vd_depth_series''" and dsetName = "''supergroup''",
             OF ne len rows fresh]
  note u = stitch_compares_no_shapes [where accept = "\<lambda>count src_dims. count = src_dims @ [1]"
             and hfile = file1
             and grp = "''/supergroups/vd_depth_series''" and dsetName = "''supergroup''",
             OF ne len rows fresh]
  have all: "\<forall>ds\<in>set [src_a, src_c].
               same_element_count (ds_dims ([src_a, src_c] ! 0) @ replicate 1 1) (ds_dims ds)"
    by (simp add: dims same_element_count_def)
  have some: "\<not> (\<forall>ds\<in>set [src_a, src_c].
                  ds_dims ([src_a, src_c] ! 0) @ replicate 1 1 = ds_dims ds @ [1])"
    by (simp add: dims)
  have refused: "writeVirtualDataSet (\<lambda>count src_dims. count = src_dims @ [1]) file1
                   ''/supergroups/vd_depth_series'' ''supergroup'' [src_a, src_c] [[0], [1]]
                 = Inl BackendRejected"
    using u [THEN conjunct2, THEN conjunct1, THEN mp, OF some] .
  have stays: "hfile' (ds_path src_a) = Some (Plain src_a)
             \<and> hfile' (ds_path src_c) = Some (Plain src_c)"
    if w: "writeVirtualDataSet same_element_count file1 ''/supergroups/vd_depth_series''
          ''supergroup'' [src_a, src_c] [[0], [1]] = Inr hfile'" for hfile'
  proof -
    have "hfile' path = file1 path"
      if "path \<noteq> ''/supergroups/vd_depth_series'' @ ''/'' @ ''supergroup''" for path
      using t [THEN conjunct2, THEN conjunct2, rule_format, OF w that] .
    then show ?thesis
      by (simp add: file1_def src_a_def src_c_def)
  qed
  have accepted: "\<exists>vds hfile'.
         writeVirtualDataSet same_element_count file1 ''/supergroups/vd_depth_series''
           ''supergroup'' [src_a, src_c] [[0], [1]] = Inr hfile'
       \<and> hfile' = file1(''/supergroups/vd_depth_series'' @ ''/'' @ ''supergroup'' \<mapsto> Virtual vds)
       \<and> map vm_src_dims (vds_maps vds) = [[2, 3], [3, 2]]
       \<and> hfile' (ds_path src_a) = Some (Plain src_a)
       \<and> hfile' (ds_path src_c) = Some (Plain src_c)"
    using t [THEN conjunct1, THEN mp, OF all]
  proof (elim exE conjE)
    fix vds
    assume r: "writeVirtualDataSet same_element_count file1 ''/supergroups/vd_depth_series''
                 ''supergroup'' [src_a, src_c] [[0], [1]]
               = Inr (file1(''/supergroups/vd_depth_series'' @ ''/'' @ ''supergroup''
                        \<mapsto> Virtual vds))"
      and s: "map vm_src_dims (vds_maps vds) = map ds_dims [src_a, src_c]"
    have "writeVirtualDataSet same_element_count file1 ''/supergroups/vd_depth_series''
            ''supergroup'' [src_a, src_c] [[0], [1]]
          = Inr (file1(''/supergroups/vd_depth_series'' @ ''/'' @ ''supergroup'' \<mapsto> Virtual vds))
        \<and> file1(''/supergroups/vd_depth_series'' @ ''/'' @ ''supergroup'' \<mapsto> Virtual vds)
            = file1(''/supergroups/vd_depth_series'' @ ''/'' @ ''supergroup'' \<mapsto> Virtual vds)
        \<and> map vm_src_dims (vds_maps vds) = [[2, 3], [3, 2]]
        \<and> (file1(''/supergroups/vd_depth_series'' @ ''/'' @ ''supergroup'' \<mapsto> Virtual vds))
              (ds_path src_a) = Some (Plain src_a)
        \<and> (file1(''/supergroups/vd_depth_series'' @ ''/'' @ ''supergroup'' \<mapsto> Virtual vds))
              (ds_path src_c) = Some (Plain src_c)"
      using r s stays [OF r] by (simp add: dims)
    then show ?thesis by - (rule exI, rule exI, assumption)
  qed
  show ?thesis
    using dims accepted refused by (intro conjI)
qed

end
